theory Spec2Isabelle
  imports Complex_Main "HOL-Library.AList"
begin

section \<open>Python strings\<close>

text \<open>
  Market names and order sides are Python \<open>str\<close> values. They are modelled as
  \<open>string\<close>; \<open>str.upper\<close> and \<open>str.lower\<close> are modelled on the ASCII letters and leave
  every other character as it is.
\<close>

definition upper_char :: "char \<Rightarrow> char" where
  "upper_char c =
     (let n = (of_char c :: nat)
      in if 97 \<le> n \<and> n \<le> 122 then char_of (n - 32) else c)"

definition lower_char :: "char \<Rightarrow> char" where
  "lower_char c =
     (let n = (of_char c :: nat)
      in if 65 \<le> n \<and> n \<le> 90 then char_of (n + 32) else c)"

definition upper :: "string \<Rightarrow> string" where
  "upper s = map upper_char s"

definition lower :: "string \<Rightarrow> string" where
  "lower s = map lower_char s"

text \<open>\<open>sub in s\<close> on strings: \<open>sub\<close> occurs in \<open>s\<close> as a contiguous block.\<close>

fun contains :: "string \<Rightarrow> string \<Rightarrow> bool" where
  "contains sub [] = (sub = [])"
| "contains sub (c # cs) = (take (length sub) (c # cs) = sub \<or> contains sub cs)"

section \<open>Python's \<open>decimal.Decimal\<close> under the default context\<close>

text \<open>
  \<open>best_order.py\<close> computes the order quantity with \<open>decimal.Decimal\<close>. A value is a
  sign, a coefficient and an exponent (\<open>(-1)^sign * coefficient * 10^exponent\<close>), an
  infinity, or a NaN (quiet, or signaling when the flag is set; sign and payload of a NaN
  play no part below). The operations follow the decimal module under its default context:
  precision 28, \<open>ROUND_HALF_EVEN\<close>, \<open>Emax = 999999\<close>, \<open>Emin = -999999\<close>, and the
  signals \<open>InvalidOperation\<close>, \<open>DivisionByZero\<close> and \<open>Overflow\<close> trapped (raised).
\<close>

datatype decimal =
    Finite (dec_sign: bool) (dec_int: nat) (dec_exp: int)
  | Infinity bool
  | NaN bool

datatype decimal_signal = InvalidOperation | DivisionByZero | Overflow

definition prec :: nat where "prec = 28"
definition Emax :: int where "Emax = 999999"
definition Emin :: int where "Emin = - 999999"
definition Etiny :: int where "Etiny = Emin - int prec + 1"
definition Etop :: int where "Etop = Emax - int prec + 1"

text \<open>\<open>len(str(n))\<close>: the number of decimal digits of a coefficient.\<close>

fun ndigits :: "nat \<Rightarrow> nat" where
  "ndigits n = (if n < 10 then 1 else Suc (ndigits (n div 10)))"

declare ndigits.simps [simp del]

text \<open>
  Dropping the last \<open>d\<close> digits of a coefficient with \<open>ROUND_HALF_EVEN\<close>: up when the
  dropped part is more than half a unit of the kept part, or exactly half and the kept
  part is odd.
\<close>

definition round_half_even :: "nat \<Rightarrow> nat \<Rightarrow> nat" where
  "round_half_even c d =
     (let q = c div 10 ^ d; r = c mod 10 ^ d
      in if 2 * r > 10 ^ d \<or> (2 * r = 10 ^ d \<and> odd q) then q + 1 else q)"

text \<open>\<open>Decimal._fix\<close>: round a finite result to the context's precision and exponent range.\<close>

definition dec_fix :: "bool \<Rightarrow> nat \<Rightarrow> int \<Rightarrow> decimal_signal + decimal" where
  "dec_fix s c e =
     (if c = 0 then Inr (Finite s 0 (min (max e Etiny) Emax))
      else
        let exp_min = int (ndigits c) + e - int prec in
        if exp_min > Etop then Inl Overflow
        else
          let exp_min = max exp_min Etiny in
          if e < exp_min then
            (let coeff = round_half_even c (nat (exp_min - e)) in
             if ndigits coeff > prec then
               (if exp_min + 1 > Etop then Inl Overflow
                else Inr (Finite s (coeff div 10) (exp_min + 1)))
             else Inr (Finite s coeff exp_min))
          else Inr (Finite s c e))"

text \<open>
  The loop of \<open>Decimal.__truediv__\<close> that brings an exact quotient as close to the ideal
  exponent as its trailing zeros allow; \<open>k\<close> is the distance to the ideal exponent.
\<close>

fun strip_zeros :: "nat \<Rightarrow> nat \<Rightarrow> int \<Rightarrow> nat \<times> int" where
  "strip_zeros k coeff e =
     (if k \<noteq> 0 \<and> coeff mod 10 = 0 then strip_zeros (k - 1) (coeff div 10) (e + 1)
      else (coeff, e))"

declare strip_zeros.simps [simp del]

definition is_nan :: "decimal \<Rightarrow> bool" where
  "is_nan d = (case d of NaN _ \<Rightarrow> True | _ \<Rightarrow> False)"

definition is_snan :: "decimal \<Rightarrow> bool" where
  "is_snan d = (case d of NaN sig \<Rightarrow> sig | _ \<Rightarrow> False)"

definition is_infinite :: "decimal \<Rightarrow> bool" where
  "is_infinite d = (case d of Infinity _ \<Rightarrow> True | _ \<Rightarrow> False)"

definition sign_of :: "decimal \<Rightarrow> bool" where
  "sign_of d = (case d of Finite s _ _ \<Rightarrow> s | Infinity s \<Rightarrow> s | NaN _ \<Rightarrow> False)"

text \<open>\<open>a / b\<close> (\<open>Decimal.__truediv__\<close>).\<close>

definition dec_div :: "decimal \<Rightarrow> decimal \<Rightarrow> decimal_signal + decimal" where
  "dec_div a b =
     (let sign = (sign_of a \<noteq> sign_of b) in
      if is_snan a \<or> is_snan b then Inl InvalidOperation
      else if is_nan a \<or> is_nan b then Inr (NaN False)
      else if is_infinite a \<and> is_infinite b then Inl InvalidOperation
      else if is_infinite a then Inr (Infinity sign)
      else if is_infinite b then Inr (Finite sign 0 Etiny)
      else if dec_int b = 0 then
        (if dec_int a = 0 then Inl InvalidOperation else Inl DivisionByZero)
      else if dec_int a = 0 then dec_fix sign 0 (dec_exp a - dec_exp b)
      else
        let shift = int (ndigits (dec_int b)) - int (ndigits (dec_int a)) + int prec + 1;
            e = dec_exp a - dec_exp b - shift;
            num = (if shift \<ge> 0 then dec_int a * 10 ^ nat shift else dec_int a);
            den = (if shift \<ge> 0 then dec_int b else dec_int b * 10 ^ nat (- shift));
            coeff = num div den;
            remainder = num mod den
        in if remainder \<noteq> 0
           then dec_fix sign (if coeff mod 5 = 0 then coeff + 1 else coeff) e
           else (case strip_zeros (nat (dec_exp a - dec_exp b - e)) coeff e of
                   (coeff', e') \<Rightarrow> dec_fix sign coeff' e'))"

text \<open>\<open>Decimal._rescale\<close> of a finite non-zero value to the exponent \<open>e'\<close>.\<close>

definition rescale :: "nat \<Rightarrow> int \<Rightarrow> int \<Rightarrow> nat" where
  "rescale c e e' =
     (if e \<ge> e' then c * 10 ^ nat (e - e') else round_half_even c (nat (e' - e)))"

text \<open>
  \<open>a.quantize(b)\<close>: only the exponent of \<open>b\<close> is used; the result has that exponent,
  and it is an error when it would need more than \<open>prec\<close> digits.
\<close>

definition quantize :: "decimal \<Rightarrow> decimal \<Rightarrow> decimal_signal + decimal" where
  "quantize a b =
     (if is_snan a \<or> is_snan b then Inl InvalidOperation
      else if is_nan a \<or> is_nan b then Inr (NaN False)
      else if is_infinite a \<or> is_infinite b then
        (if is_infinite a \<and> is_infinite b then Inr a else Inl InvalidOperation)
      else if \<not> (Etiny \<le> dec_exp b \<and> dec_exp b \<le> Emax) then Inl InvalidOperation
      else if dec_int a = 0 then Inr (Finite (dec_sign a) 0 (dec_exp b))
      else
        let adjusted = int (ndigits (dec_int a)) + dec_exp a - 1 in
        if adjusted > Emax then Inl InvalidOperation
        else if adjusted - dec_exp b + 1 > int prec then Inl InvalidOperation
        else
          let coeff = rescale (dec_int a) (dec_exp a) (dec_exp b) in
          if coeff \<noteq> 0 \<and> int (ndigits coeff) + dec_exp b - 1 > Emax then Inl InvalidOperation
          else if ndigits coeff > prec then Inl InvalidOperation
          else Inr (Finite (dec_sign a) coeff (dec_exp b)))"

text \<open>The value of a finite decimal as an integer multiple of \<open>10^m\<close>, for \<open>m\<close> at most its exponent.\<close>

definition scaled :: "decimal \<Rightarrow> int \<Rightarrow> int" where
  "scaled d m = (if dec_sign d then - 1 else 1) * int (dec_int d) * 10 ^ nat (dec_exp d - m)"

definition inf_rank :: "decimal \<Rightarrow> int" where
  "inf_rank d = (case d of Infinity s \<Rightarrow> (if s then - 1 else 1) | _ \<Rightarrow> 0)"

text \<open>\<open>a < b\<close> (\<open>Decimal.__lt__\<close>): a comparison that involves a NaN raises.\<close>

definition dec_lt :: "decimal \<Rightarrow> decimal \<Rightarrow> decimal_signal + bool" where
  "dec_lt a b =
     (if is_nan a \<or> is_nan b then Inl InvalidOperation
      else if is_infinite a \<or> is_infinite b then Inr (inf_rank a < inf_rank b)
      else let m = min (dec_exp a) (dec_exp b) in Inr (scaled a m < scaled b m))"

subsection \<open>\<open>Decimal(str)\<close>\<close>

definition is_digit :: "char \<Rightarrow> bool" where
  "is_digit c = (48 \<le> (of_char c :: nat) \<and> (of_char c :: nat) \<le> 57)"

definition is_space :: "char \<Rightarrow> bool" where
  "is_space c = ((of_char c :: nat) \<in> {9, 10, 11, 12, 13, 28, 29, 30, 31, 32})"

definition strip :: "string \<Rightarrow> string" where
  "strip s = rev (dropWhile is_space (rev (dropWhile is_space s)))"

fun nat_of_digits :: "nat \<Rightarrow> string \<Rightarrow> nat" where
  "nat_of_digits acc [] = acc"
| "nat_of_digits acc (c # cs) = nat_of_digits (10 * acc + ((of_char c :: nat) - 48)) cs"

text \<open>The exponent part of a numeric string: empty, or \<open>E\<close>, an optional sign and digits.\<close>

definition parse_exponent :: "string \<Rightarrow> int option" where
  "parse_exponent s =
     (case s of
        [] \<Rightarrow> Some 0
      | c # r \<Rightarrow>
          if c = CHR ''e'' \<or> c = CHR ''E'' then
            (let neg = (take 1 r = ''-'');
                 ds = (if take 1 r = ''-'' \<or> take 1 r = ''+'' then drop 1 r else r)
             in if ds \<noteq> [] \<and> list_all is_digit ds
                then Some ((if neg then - 1 else 1) * int (nat_of_digits 0 ds))
                else None)
          else None)"

text \<open>
  \<open>Decimal(s)\<close> for a string: surrounding whitespace is stripped and underscores are
  removed; then an optional sign is followed by a number (digits with an optional
  fractional part and exponent, at least one digit), an infinity or a NaN. \<open>None\<close> is
  the \<open>InvalidOperation\<close> that the constructor raises on any other string. The
  conversion is exact.
\<close>

definition Decimal_str :: "string \<Rightarrow> decimal option" where
  "Decimal_str s =
     (let t = filter (\<lambda>c. c \<noteq> CHR ''_'') (strip s);
          neg = (take 1 t = ''-'');
          u = (if take 1 t = ''-'' \<or> take 1 t = ''+'' then drop 1 t else t);
          l = lower u
      in if l = ''inf'' \<or> l = ''infinity'' then Some (Infinity neg)
         else if take 3 l = ''nan'' \<and> list_all is_digit (drop 3 l) then Some (NaN False)
         else if take 4 l = ''snan'' \<and> list_all is_digit (drop 4 l) then Some (NaN True)
         else
           let intpart = takeWhile is_digit u;
               r1 = dropWhile is_digit u;
               fracpart = (if take 1 r1 = ''.'' then takeWhile is_digit (drop 1 r1) else []);
               r2 = (if take 1 r1 = ''.'' then dropWhile is_digit (drop 1 r1) else r1)
           in if intpart = [] \<and> fracpart = [] then None
              else (case parse_exponent r2 of
                      None \<Rightarrow> None
                    | Some ex \<Rightarrow>
                        Some (Finite neg (nat_of_digits 0 (intpart @ fracpart))
                                (ex - int (length fracpart)))))"

section \<open>Market metadata: \<open>core/market_utils.py\<close>\<close>

text \<open>
  A market object of the trading client. Only what the code reads is kept: the name, the
  trading configuration when the object has one (\<open>hasattr(m, 'trading_config')\<close>) and
  the value of \<open>float(m.market_stats.daily_volume)\<close>, which is \<open>None\<close> when that
  expression raises \<open>AttributeError\<close>, \<open>ValueError\<close> or \<open>TypeError\<close>. Floats (volumes,
  clock readings) are idealised as real numbers.
\<close>

record trading_config =
  min_order_size :: decimal
  min_order_size_change :: decimal

record market_model =
  name :: string
  trading_config :: "trading_config option"
  daily_volume :: "real option"

text \<open>
  The two dictionaries of \<open>MarketUtils\<close>. A Python \<open>dict\<close> keeps insertion order and
  \<open>get_markets\<close> lists the values in that order, so they are association lists:
  \<open>d[k] = v\<close> is \<open>AList.update k v d\<close> and \<open>d.get(k)\<close> is \<open>map_of d k\<close>.
\<close>

record market_utils =
  market_cache :: "(string \<times> market_model) list"
  cache_timestamps :: "(string \<times> real) list"

definition init_market_utils :: market_utils where
  "init_market_utils = \<lparr>market_cache = [], cache_timestamps = []\<rparr>"

definition CACHE_DURATION_SECONDS :: real where
  "CACHE_DURATION_SECONDS = 60"

text \<open>
  One iteration of the loop of \<open>_fetch_and_cache_all_markets\<close>, and the method itself.
  Its arguments are what the outside world gives: the answer of the client's
  \<open>get_markets()\<close> (\<open>None\<close> when it raises, which the method logs and swallows) and the
  reading \<open>current_time\<close> of the clock after the answer.
\<close>

definition cache_market :: "real \<Rightarrow> market_model \<Rightarrow> market_utils \<Rightarrow> market_utils" where
  "cache_market current_time m s =
     s\<lparr>market_cache := AList.update (name m) m (market_cache s),
       cache_timestamps := AList.update (name m) current_time (cache_timestamps s)\<rparr>"

definition fetch_and_cache_all_markets ::
  "market_model list option \<Rightarrow> real \<Rightarrow> market_utils \<Rightarrow> market_utils" where
  "fetch_and_cache_all_markets response current_time s =
     (case response of
        None \<Rightarrow> s
      | Some markets \<Rightarrow> fold (cache_market current_time) markets s)"

text \<open>
  The result of a cache operation: the value returned, the cache afterwards and the number
  of calls of the client's \<open>get_markets()\<close> that were made.
\<close>

record 'a cache_result =
  result :: 'a
  utils :: market_utils
  fetches :: nat

text \<open>
  \<open>get_market_object\<close>. \<open>now\<close> is the reading of \<open>time.time()\<close> in the freshness test.
  The test \<open>cached_market and cache_timestamp and ...\<close> is on truthiness: a market object
  is always true, a timestamp is true unless it is \<open>0.0\<close>.
\<close>

definition get_market_object ::
  "market_model list option \<Rightarrow> real \<Rightarrow> real \<Rightarrow> market_utils \<Rightarrow> string
     \<Rightarrow> market_model option cache_result" where
  "get_market_object response now current_time s mkt =
     (let cached_market = map_of (market_cache s) mkt;
          cache_timestamp = map_of (cache_timestamps s) mkt;
          valid = (case (cached_market, cache_timestamp) of
                     (Some m, Some stamp) \<Rightarrow> stamp \<noteq> 0 \<and> now - stamp < CACHE_DURATION_SECONDS
                   | _ \<Rightarrow> False)
      in if valid then \<lparr>result = cached_market, utils = s, fetches = 0\<rparr>
         else
           let s' = fetch_and_cache_all_markets response current_time s
           in \<lparr>result = map_of (market_cache s') mkt, utils = s', fetches = 1\<rparr>)"

text \<open>
  A cache is well formed when its two dictionaries have the same keys and every timestamp
  is positive, as the readings of \<open>time.time()\<close> are.
\<close>

definition cache_ok :: "market_utils \<Rightarrow> bool" where
  "cache_ok s =
     ((\<forall>k. (map_of (market_cache s) k = None) = (map_of (cache_timestamps s) k = None)) \<and>
      (\<forall>k stamp. map_of (cache_timestamps s) k = Some stamp \<longrightarrow> 0 < stamp))"

text \<open>\<open>xs[:n]\<close>: a negative \<open>n\<close> counts from the end.\<close>

definition py_prefix :: "int \<Rightarrow> 'a list \<Rightarrow> 'a list" where
  "py_prefix n xs = (if n \<ge> 0 then take (nat n) xs else take (nat (int (length xs) + n)) xs)"

text \<open>
  The list that \<open>get_markets\<close> sorts: the markets whose volume converts to a float, each
  with that float; and the sort itself, \<open>sort(key=..., reverse=True)\<close>, which is stable.
\<close>

definition with_volume :: "market_model list \<Rightarrow> (market_model \<times> real) list" where
  "with_volume ms = concat (map (\<lambda>m. case daily_volume m of None \<Rightarrow> [] | Some v \<Rightarrow> [(m, v)]) ms)"

definition sort_by_volume :: "(market_model \<times> real) list \<Rightarrow> (market_model \<times> real) list" where
  "sort_by_volume items = sort_key (\<lambda>item. - snd item) items"

definition get_markets ::
  "market_model list option \<Rightarrow> real \<Rightarrow> real \<Rightarrow> market_utils \<Rightarrow> int option
     \<Rightarrow> market_model list cache_result" where
  "get_markets response now current_time s top_n =
     (let refresh =
            (if market_cache s \<noteq> [] \<and> cache_timestamps s \<noteq> [] then
               (if \<not> list_ex (\<lambda>stamp. now - stamp < CACHE_DURATION_SECONDS)
                         (map snd (cache_timestamps s)) then True
                else if market_cache s = [] then True
                else False)
             else False);
          s' = (if refresh then fetch_and_cache_all_markets response current_time s else s);
          markets_list = map snd (market_cache s');
          listed =
            (if markets_list = [] \<and> market_cache s' = [] then []
             else case top_n of
                    Some n \<Rightarrow> map fst (py_prefix n (sort_by_volume (with_volume markets_list)))
                  | None \<Rightarrow> markets_list)
      in \<lparr>result = listed, utils = s', fetches = (if refresh then 1 else 0)\<rparr>)"

section \<open>The stream provider: \<open>core/realtime_market_data.py\<close>\<close>

text \<open>
  A stored quote is the dictionary written by the listener; prices and quantities are the
  JSON strings of the feed. The provider's dictionaries are maps. Every task made by
  \<open>asyncio.create_task\<close> is kept in \<open>tasks\<close>, in creation order, and a task object is
  referred to by its position there: \<open>connection_tasks\<close> maps a market to the position of
  its task. A task records the market its coroutine listens to, whether \<open>cancel()\<close> was
  called on it and whether it is \<open>done()\<close>.
\<close>

record quote =
  bid_price :: string
  bid_qty :: string
  ask_price :: string
  ask_qty :: string
  timestamp :: real

record websocket =
  closed :: bool

record task =
  listens_to :: string
  cancel_requested :: bool
  is_done :: bool

record provider =
  latest_market_data :: "string \<rightharpoonup> quote"
  market_connections :: "string \<rightharpoonup> websocket"
  connection_tasks :: "string \<rightharpoonup> nat"
  running :: bool
  active_market_listeners :: "string \<rightharpoonup> bool"
  tasks :: "task list"

definition init_provider :: provider where
  "init_provider =
     \<lparr>latest_market_data = Map.empty, market_connections = Map.empty,
      connection_tasks = Map.empty, running = False,
      active_market_listeners = Map.empty, tasks = []\<rparr>"

text \<open>
  A decoded message of the feed: the \<open>type\<close>, and from \<open>data\<close> the market \<open>m\<close>, the bid
  levels \<open>b\<close>, the ask levels \<open>a\<close>; and \<open>ts\<close>. An absent key is \<open>None\<close>. A level has a
  price \<open>p\<close> and a quantity \<open>q\<close>.
\<close>

record level =
  level_p :: "string option"
  level_q :: "string option"

record snapshot =
  msg_type :: "string option"
  data_m :: "string option"
  data_b :: "level list option"
  data_a :: "level list option"
  msg_ts :: "real option"

datatype message_outcome = Stored | SkippedInactive | LackedPrice | Ignored | IndexError

text \<open>\<open>data.get(key, [{}])[0]\<close>: the first level, the empty level when the key is absent.\<close>

definition first_level :: "level list option \<Rightarrow> level option" where
  "first_level levels =
     (case levels of
        None \<Rightarrow> Some \<lparr>level_p = None, level_q = None\<rparr>
      | Some [] \<Rightarrow> None
      | Some (l # _) \<Rightarrow> Some l)"

definition truthy :: "string option \<Rightarrow> bool" where
  "truthy v = (case v of None \<Rightarrow> False | Some t \<Rightarrow> t \<noteq> [])"

text \<open>
  What the listener of \<open>mkt\<close> does with one decoded message (the body of its receive loop
  after \<open>json.loads\<close>): no \<open>await\<close> suspends it between the test of the flag and the write,
  both under the lock. \<open>now_ms\<close> is \<open>time.time() * 1000\<close>. \<open>IndexError\<close> is the exception of
  \<open>[0]\<close> on an empty list of levels, caught by the loop's last handler.
\<close>

definition handle_message :: "string \<Rightarrow> snapshot \<Rightarrow> real \<Rightarrow> provider \<Rightarrow> message_outcome \<times> provider" where
  "handle_message mkt snap now_ms s =
     (if msg_type snap = Some ''SNAPSHOT'' \<and> data_m snap = Some mkt then
        (case first_level (data_b snap) of
           None \<Rightarrow> (IndexError, s)
         | Some best_bid \<Rightarrow>
             (case first_level (data_a snap) of
                None \<Rightarrow> (IndexError, s)
              | Some best_ask \<Rightarrow>
                  if truthy (level_p best_bid) \<and> truthy (level_p best_ask) then
                    (if active_market_listeners s mkt = Some True then
                       (Stored,
                        s\<lparr>latest_market_data := (latest_market_data s)(mkt \<mapsto>
                            \<lparr>bid_price = the (level_p best_bid),
                             bid_qty = (case level_q best_bid of None \<Rightarrow> ''0'' | Some v \<Rightarrow> v),
                             ask_price = the (level_p best_ask),
                             ask_qty = (case level_q best_ask of None \<Rightarrow> ''0'' | Some v \<Rightarrow> v),
                             timestamp = (case msg_ts snap of None \<Rightarrow> now_ms | Some t \<Rightarrow> t)\<rparr>)\<rparr>)
                     else (SkippedInactive, s))
                  else (LackedPrice, s)))
      else (Ignored, s))"

text \<open>
  The end of \<open>_listen_to_market_stream\<close> for the task at position \<open>i\<close>, when it leaves its
  loop: under the lock it deletes the connection and the quote of its market, and is done.
\<close>

definition listener_exit :: "nat \<Rightarrow> provider \<Rightarrow> provider" where
  "listener_exit i s =
     (if i < length (tasks s) then
        (let mkt = listens_to (tasks s ! i)
         in s\<lparr>market_connections := (market_connections s)(mkt := None),
              latest_market_data := (latest_market_data s)(mkt := None),
              tasks := (tasks s)[i := (tasks s ! i)\<lparr>is_done := True\<rparr>]\<rparr>)
      else s)"

text \<open>\<open>task.done()\<close> for the task registered for a market, if there is one.\<close>

definition live_task :: "provider \<Rightarrow> string \<Rightarrow> nat option" where
  "live_task s mkt =
     (case connection_tasks s mkt of
        None \<Rightarrow> None
      | Some i \<Rightarrow> if i < length (tasks s) \<and> \<not> is_done (tasks s ! i) then Some i else None)"

text \<open>One iteration of the loop of \<open>start_streams\<close>, and the method.\<close>

definition start_market :: "string \<Rightarrow> provider \<Rightarrow> provider" where
  "start_market market_name_raw s =
     (let mkt = upper market_name_raw;
          s1 = s\<lparr>active_market_listeners := (active_market_listeners s)(mkt \<mapsto> True)\<rparr>
      in if live_task s1 mkt = None then
           s1\<lparr>tasks := tasks s1 @ [\<lparr>listens_to = mkt, cancel_requested = False, is_done = False\<rparr>],
              connection_tasks := (connection_tasks s1)(mkt \<mapsto> length (tasks s1))\<rparr>
         else s1)"

definition start_streams :: "string list \<Rightarrow> provider \<Rightarrow> provider" where
  "start_streams markets s = fold start_market markets (s\<lparr>running := True\<rparr>)"

text \<open>
  One iteration of the first loop of \<open>stop_specific_streams\<close>, in its three parts: the flag
  is cleared and the task cancelled; an open connection is closed (an \<open>await\<close>, where
  listeners may run); the quote and the connection are deleted under the lock.
  \<open>cancel()\<close> only requests the cancellation: the task is done later, when it next runs.
\<close>

definition stop_mark :: "string \<Rightarrow> provider \<Rightarrow> provider" where
  "stop_mark mkt s =
     (let s1 = s\<lparr>active_market_listeners := (active_market_listeners s)(mkt \<mapsto> False)\<rparr>
      in case live_task s1 mkt of
           Some i \<Rightarrow> s1\<lparr>tasks := (tasks s1)[i := (tasks s1 ! i)\<lparr>cancel_requested := True\<rparr>]\<rparr>
         | None \<Rightarrow> s1)"

definition stop_close :: "string \<Rightarrow> provider \<Rightarrow> provider" where
  "stop_close mkt s =
     (case market_connections s mkt of
        Some conn \<Rightarrow>
          if \<not> closed conn
          then s\<lparr>market_connections := (market_connections s)(mkt \<mapsto> conn\<lparr>closed := True\<rparr>)\<rparr>
          else s
      | None \<Rightarrow> s)"

definition stop_clear :: "string \<Rightarrow> provider \<Rightarrow> provider" where
  "stop_clear mkt s =
     s\<lparr>latest_market_data := (latest_market_data s)(mkt := None),
       market_connections := (market_connections s)(mkt := None)\<rparr>"

text \<open>The list \<open>stopped_market_tasks\<close> grows by the task that \<open>stop_mark\<close> cancels.\<close>

definition stop_market :: "string \<Rightarrow> provider \<times> nat list \<Rightarrow> provider \<times> nat list" where
  "stop_market market_name_raw acc =
     (let mkt = upper market_name_raw; s = fst acc
      in (stop_clear mkt (stop_close mkt (stop_mark mkt s)),
          snd acc @ (case live_task s mkt of Some i \<Rightarrow> [i] | None \<Rightarrow> [])))"

definition stop_loop :: "string list \<Rightarrow> provider \<Rightarrow> provider \<times> nat list" where
  "stop_loop markets_to_stop s = fold stop_market markets_to_stop (s, [])"

text \<open>
  \<open>await asyncio.gather(*stopped_market_tasks, return_exceptions=True)\<close> returns when
  every cancelled task is done.
\<close>

definition gather :: "nat list \<Rightarrow> provider \<Rightarrow> provider" where
  "gather stopped s =
     s\<lparr>tasks := map (\<lambda>i. if i \<in> set stopped then (tasks s ! i)\<lparr>is_done := True\<rparr> else tasks s ! i)
                  [0 ..< length (tasks s)]\<rparr>"

text \<open>
  The loop after the \<open>gather\<close>: \<open>zip(markets_to_stop, results)\<close> pairs the markets with the
  results, and the task entry of each paired market is deleted.
\<close>

definition stop_finish :: "string list \<Rightarrow> nat list \<Rightarrow> provider \<Rightarrow> provider" where
  "stop_finish markets_to_stop stopped s =
     fold (\<lambda>pair s'. s'\<lparr>connection_tasks := (connection_tasks s')(upper (fst pair) := None)\<rparr>)
       (zip markets_to_stop stopped) s"

definition stop_specific_streams :: "string list \<Rightarrow> provider \<Rightarrow> provider" where
  "stop_specific_streams markets_to_stop s =
     (let looped = stop_loop markets_to_stop s
      in if snd looped \<noteq> []
         then stop_finish markets_to_stop (snd looped) (gather (snd looped) (fst looped))
         else fst looped)"

definition get_best_bid_ask :: "provider \<Rightarrow> string \<Rightarrow> quote option" where
  "get_best_bid_ask s market_name_raw = latest_market_data s (upper market_name_raw)"

text \<open>
  What can happen to a provider: the public operations, each run to its end, and the steps
  of the listener tasks (a message handled by the listener of a market, a task leaving its
  loop).
\<close>

datatype event =
    Start "string list"
  | Stop "string list"
  | Message string snapshot real
  | Exit nat

fun step :: "event \<Rightarrow> provider \<Rightarrow> provider" where
  "step (Start markets) s = start_streams markets s"
| "step (Stop markets) s = stop_specific_streams markets s"
| "step (Message mkt snap now_ms) s = snd (handle_message mkt snap now_ms s)"
| "step (Exit i) s = listener_exit i s"

definition run :: "event list \<Rightarrow> provider \<Rightarrow> provider" where
  "run evs s = fold step evs s"

fun listener_event :: "event \<Rightarrow> bool" where
  "listener_event (Message _ _ _) = True"
| "listener_event (Exit _) = True"
| "listener_event _ = False"

text \<open>The tasks that are not done and listen to a market.\<close>

definition live_listeners :: "provider \<Rightarrow> string \<Rightarrow> nat list" where
  "live_listeners s mkt =
     filter (\<lambda>i. \<not> is_done (tasks s ! i) \<and> listens_to (tasks s ! i) = mkt) [0 ..< length (tasks s)]"

section \<open>The strategy: \<open>strategies/best_order.py\<close>\<close>

text \<open>
  The request given to the client's \<open>place_order\<close>, and what \<open>execute\<close> leaves behind: the
  value it returns (the order id, or \<open>None\<close>), the errors it logs and the requests it
  makes. Each \<open>logger.error\<close> of \<open>execute\<close> is one constructor of \<open>failure\<close>:
  \<^item> \<open>ConfigurationUnavailable\<close>: "Market trading configuration ... not found";
  \<^item> \<open>QuoteUnavailable\<close>: "Real-time price data not available" (\<open>NoSnapshot\<close>),
    "Real-time bid price not available" (\<open>NoBid\<close>), "Real-time ask price not available"
    (\<open>NoAsk\<close>);
  \<^item> \<open>InvalidSide\<close>: "Invalid side";
  \<^item> \<open>BelowMinimumSize\<close>: "Calculated quantity ... is below minimum order size";
  \<^item> \<open>InsufficientBalance\<close>, \<open>PrecisionError\<close>, \<open>UnclassifiedExecutionFailure\<close>: the three
    branches of the exception handler.
\<close>

datatype order_side = BUY | SELL

record order_request =
  market_name :: string
  amount_of_synthetic :: decimal
  price :: decimal
  side :: order_side
  post_only :: bool

datatype py_exception = DecimalException decimal_signal | Raised string

datatype quote_cause = NoSnapshot | NoBid | NoAsk

datatype failure =
    ConfigurationUnavailable
  | QuoteUnavailable quote_cause
  | InvalidSide
  | BelowMinimumSize decimal decimal
  | InsufficientBalance
  | PrecisionError
  | UnclassifiedExecutionFailure py_exception

record exec_result =
  returned :: "string option"
  logged :: "failure list"
  placed :: "order_request list"

definition failed :: "failure \<Rightarrow> exec_result" where
  "failed f = \<lparr>returned = None, logged = [f], placed = []\<rparr>"

text \<open>
  The handler \<open>except Exception as e\<close>: the message \<open>str(e)\<close> decides. The message of an
  exception of the decimal module names its signal and has neither phrase in it.
\<close>

definition classify :: "py_exception \<Rightarrow> failure" where
  "classify e =
     (case e of
        Raised error_message \<Rightarrow>
          if contains ''New order cost exceeds available balance'' error_message
            then InsufficientBalance
          else if contains ''Invalid quantity precision'' error_message then PrecisionError
          else UnclassifiedExecutionFailure e
      | DecimalException _ \<Rightarrow> UnclassifiedExecutionFailure e)"

definition is_buy :: "string \<Rightarrow> bool" where
  "is_buy sd = (lower sd = ''bb'' \<or> lower sd = ''buy'')"

definition is_sell :: "string \<Rightarrow> bool" where
  "is_sell sd = (lower sd = ''ba'' \<or> lower sd = ''sell'')"

text \<open>\<open>(Decimal(str(amount_usd)) / price).quantize(min_order_size_change)\<close>.\<close>

definition order_quantity :: "decimal \<Rightarrow> decimal \<Rightarrow> decimal \<Rightarrow> decimal_signal + decimal" where
  "order_quantity amount px step_size =
     (case dec_div amount px of Inl e \<Rightarrow> Inl e | Inr d \<Rightarrow> quantize d step_size)"

text \<open>
  The body of \<open>execute\<close> from the moment its price is chosen: the quantity, the test
  against the minimum and the call of \<open>place_order\<close>. The client is a function from the
  request to the id of the placed order (\<open>Inr\<close>) or to the message of the exception that
  placing, or reading the id of the response, raises (\<open>Inl\<close>).
\<close>

definition place_at ::
  "(order_request \<Rightarrow> string + string) \<Rightarrow> trading_config \<Rightarrow> string \<Rightarrow> order_side \<Rightarrow> decimal
     \<Rightarrow> decimal \<Rightarrow> exec_result" where
  "place_at place_order tc mkt order_side_api amount px =
     (case order_quantity amount px (min_order_size_change tc) of
        Inl e \<Rightarrow> failed (classify (DecimalException e))
      | Inr quantity \<Rightarrow>
          (case dec_lt quantity (min_order_size tc) of
             Inl e \<Rightarrow> failed (classify (DecimalException e))
           | Inr True \<Rightarrow> failed (BelowMinimumSize quantity (min_order_size tc))
           | Inr False \<Rightarrow>
               (let req = \<lparr>market_name = mkt, amount_of_synthetic = quantity, price = px,
                           side = order_side_api, post_only = True\<rparr>
                in case place_order req of
                     Inl error_message \<Rightarrow>
                       \<lparr>returned = None, logged = [classify (Raised error_message)],
                        placed = [req]\<rparr>
                   | Inr order_id \<Rightarrow> \<lparr>returned = Some order_id, logged = [], placed = [req]\<rparr>)))"

text \<open>
  \<open>execute\<close>, given what its two awaited lookups returned: \<open>market_config\<close> from
  \<open>get_market_info\<close> and \<open>realtime_prices\<close> from \<open>get_best_bid_ask\<close>. \<open>amount\<close> is
  \<open>Decimal(str(amount_usd))\<close>. The branch \<open>price is None\<close> of the source cannot be
  reached (every path to it has set the price) and is left out.
\<close>

definition execute_on ::
  "market_model option \<Rightarrow> quote option \<Rightarrow> (order_request \<Rightarrow> string + string) \<Rightarrow> string
     \<Rightarrow> string \<Rightarrow> decimal \<Rightarrow> exec_result" where
  "execute_on market_config realtime_prices place_order mkt sd amount =
     (case market_config of
        None \<Rightarrow> failed ConfigurationUnavailable
      | Some cfg \<Rightarrow>
          (case trading_config cfg of
             None \<Rightarrow> failed ConfigurationUnavailable
           | Some tc \<Rightarrow>
               (case realtime_prices of
                  None \<Rightarrow> failed (QuoteUnavailable NoSnapshot)
                | Some rp \<Rightarrow>
                    if is_buy sd then
                      (if bid_price rp \<noteq> [] then
                         (case Decimal_str (bid_price rp) of
                            None \<Rightarrow> failed (classify (DecimalException InvalidOperation))
                          | Some px \<Rightarrow> place_at place_order tc mkt BUY amount px)
                       else failed (QuoteUnavailable NoBid))
                    else if is_sell sd then
                      (if ask_price rp \<noteq> [] then
                         (case Decimal_str (ask_price rp) of
                            None \<Rightarrow> failed (classify (DecimalException InvalidOperation))
                          | Some px \<Rightarrow> place_at place_order tc mkt SELL amount px)
                       else failed (QuoteUnavailable NoAsk))
                    else failed InvalidSide)))"

text \<open>
  \<open>execute\<close> on the state of the program: the metadata is looked up under the market name
  as given, the quote through the provider.
\<close>

definition execute ::
  "market_model list option \<Rightarrow> real \<Rightarrow> real \<Rightarrow> market_utils \<Rightarrow> provider
     \<Rightarrow> (order_request \<Rightarrow> string + string) \<Rightarrow> string \<Rightarrow> string \<Rightarrow> decimal \<Rightarrow> exec_result" where
  "execute response now current_time mu prov place_order mkt sd amount =
     execute_on (result (get_market_object response now current_time mu mkt))
       (get_best_bid_ask prov mkt) place_order mkt sd amount"

section \<open>Notions of the specification\<close>


text \<open>
  "A single logical task per market": every task that is not done is the task registered
  in \<open>connection_tasks\<close> for the market it listens to.
\<close>

definition tasks_registered :: "provider \<Rightarrow> bool" where
  "tasks_registered s =
     (\<forall>i < length (tasks s).
        \<not> is_done (tasks s ! i) \<longrightarrow> connection_tasks s (listens_to (tasks s ! i)) = Some i)"

section \<open>Example data\<close>

text \<open>
  The market, cache and provider of the specification's examples: \<open>BTC-USD\<close> with a
  minimum size and a size step, cached at time 1000, and a provider that holds one quote
  for it.
\<close>

definition market_with :: "decimal \<Rightarrow> decimal \<Rightarrow> market_model" where
  "market_with min_size step_size =
     \<lparr>name = ''BTC-USD'',
      trading_config = Some \<lparr>min_order_size = min_size, min_order_size_change = step_size\<rparr>,
      daily_volume = Some 5\<rparr>"

definition utils_with :: "market_model \<Rightarrow> market_utils" where
  "utils_with m = \<lparr>market_cache = [(name m, m)], cache_timestamps = [(name m, 1000)]\<rparr>"

definition quote_of :: "string \<Rightarrow> string \<Rightarrow> quote" where
  "quote_of bid ask =
     \<lparr>bid_price = bid, bid_qty = ''2'', ask_price = ask, ask_qty = ''3'', timestamp = 7\<rparr>"

definition provider_with :: "quote \<Rightarrow> provider" where
  "provider_with q = init_provider\<lparr>latest_market_data := [''BTC-USD'' \<mapsto> q]\<rparr>"

definition accepting_client :: "order_request \<Rightarrow> string + string" where
  "accepting_client req = Inr ''order-1''"

text \<open>
  A cache of four markets, stored at time 1000 in this order: volumes 1, 2 and -3, and one
  whose volume does not convert to a float.
\<close>

definition market_of :: "string \<Rightarrow> real option \<Rightarrow> market_model" where
  "market_of n v = \<lparr>name = n, trading_config = None, daily_volume = v\<rparr>"

definition volume_utils :: market_utils where
  "volume_utils =
     \<lparr>market_cache =
        [(''AAA-USD'', market_of ''AAA-USD'' (Some 1)),
         (''BBB-USD'', market_of ''BBB-USD'' (Some 2)),
         (''CCC-USD'', market_of ''CCC-USD'' (Some (- 3))),
         (''DDD-USD'', market_of ''DDD-USD'' None)],
      cache_timestamps =
        [(''AAA-USD'', 1000), (''BBB-USD'', 1000), (''CCC-USD'', 1000), (''DDD-USD'', 1000)]\<rparr>"

text \<open>
  A provider that streams \<open>BTC-USD\<close>: its listener task is alive and registered, a quote
  is cached, and the connection object in the registry is closed (the listener is between
  two connections). And a well-formed message of the feed for that market.
\<close>

definition streaming_provider :: provider where
  "streaming_provider =
     \<lparr>latest_market_data = [''BTC-USD'' \<mapsto> quote_of ''100'' ''101''],
      market_connections = [''BTC-USD'' \<mapsto> \<lparr>closed = True\<rparr>],
      connection_tasks = [''BTC-USD'' \<mapsto> 0],
      running = True,
      active_market_listeners = [''BTC-USD'' \<mapsto> True],
      tasks = [\<lparr>listens_to = ''BTC-USD'', cancel_requested = False, is_done = False\<rparr>]\<rparr>"

definition example_snapshot :: snapshot where
  "example_snapshot =
     \<lparr>msg_type = Some ''SNAPSHOT'', data_m = Some ''BTC-USD'',
      data_b = Some [\<lparr>level_p = Some ''102'', level_q = Some ''1''\<rparr>],
      data_a = Some [\<lparr>level_p = Some ''103'', level_q = None\<rparr>],
      msg_ts = Some 9\<rparr>"


section \<open>Evaluation\<close>

lemmas dec_defs =
  dec_div_def dec_fix_def quantize_def rescale_def round_half_even_def dec_lt_def scaled_def
  inf_rank_def is_snan_def is_nan_def is_infinite_def sign_of_def prec_def Etop_def Etiny_def
  Emax_def Emin_def ndigits.simps strip_zeros.simps

lemmas str_defs =
  Decimal_str_def strip_def is_space_def is_digit_def lower_def lower_char_def
  parse_exponent_def is_buy_def is_sell_def

lemmas exec_defs =
  execute_def execute_on_def place_at_def order_quantity_def failed_def classify_def
  get_market_object_def get_best_bid_ask_def CACHE_DURATION_SECONDS_def init_provider_def

lemmas example_defs =
  market_with_def utils_with_def quote_of_def provider_with_def accepting_client_def

lemma upper_BTC_USD: "upper ''BTC-USD'' = ''BTC-USD''"
  by code_simp

lemma upper_btc_usd: "upper ''btc-usd'' = ''BTC-USD''"
  by code_simp

section \<open>The strategy: price, quantity and failures\<close>

lemma upper_idem: "upper (upper s) = upper s"
proof -
  have "upper_char (upper_char c) = upper_char c" for c
    by (auto simp: upper_char_def Let_def)
  then show ?thesis
    by (simp add: upper_def)
qed

lemma quantize_Finite:
  "quantize a b = Inr (Finite s c e) \<Longrightarrow> e = dec_exp b \<and> (\<exists>s' c'. b = Finite s' c' e)"
  unfolding quantize_def Let_def
  by (cases b) (auto simp: is_nan_def is_snan_def is_infinite_def split: if_splits decimal.splits)






lemma example_lookups:
  "result (get_market_object None 1010 1010 (utils_with (market_with a b)) ''BTC-USD'')
     = Some (market_with a b)"
  "trading_config (market_with a b) = Some \<lparr>min_order_size = a, min_order_size_change = b\<rparr>"
  "get_best_bid_ask (provider_with q) ''BTC-USD'' = Some q"
  by (simp_all add: exec_defs example_defs upper_BTC_USD)




subsection \<open>What \<open>quantize\<close> rounds to\<close>

lemma round_half_even_nearest:
  "2 * \<bar>int (round_half_even c d) * 10 ^ d - int c\<bar> \<le> 10 ^ d"
proof -
  define q where "q = c div 10 ^ d"
  define r where "r = c mod 10 ^ d"
  have c: "int c = int q * 10 ^ d + int r"
    unfolding q_def r_def by (metis div_mult_mod_eq of_nat_add of_nat_mult of_nat_numeral of_nat_power)
  have r: "int r < 10 ^ d"
    unfolding r_def by (metis mod_less_divisor of_nat_less_iff of_nat_numeral of_nat_power zero_less_numeral zero_less_power)
  show ?thesis
  proof (cases "2 * r > 10 ^ d \<or> (2 * r = 10 ^ d \<and> odd q)")
    case True
    then have up: "round_half_even c d = q + 1"
      by (simp add: round_half_even_def q_def r_def Let_def)
    from True have "(10::int) ^ d \<le> 2 * int r"
      by (metis less_imp_le_nat of_nat_le_iff of_nat_mult of_nat_numeral of_nat_power order_refl)
    with r c show ?thesis
      unfolding up by (simp add: algebra_simps)
  next
    case False
    then have down: "round_half_even c d = q"
      by (simp add: round_half_even_def q_def r_def Let_def)
    from False have "\<not> 2 * r > 10 ^ d"
      by simp
    then have "2 * int r \<le> 10 ^ d"
      by (metis not_less of_nat_le_iff of_nat_mult of_nat_numeral of_nat_power)
    with c show ?thesis
      unfolding down by (simp add: algebra_simps)
  qed
qed

text \<open>
  A finite result of \<open>quantize\<close> keeps the sign, has the exponent of the second operand
  and lies within half a unit of that exponent from the first operand: it is the first
  operand rounded to the decimal places of the second, whatever the second's coefficient.
\<close>

lemma quantize_nearest:
  assumes "quantize (Finite s c e) b = Inr (Finite s' c' e')"
  shows "s' = s \<and> e' = dec_exp b \<and>
         2 * \<bar>int c' * 10 ^ nat (e' - min e e') - int c * 10 ^ nat (e - min e e')\<bar>
           \<le> 10 ^ nat (e' - min e e')"
proof -
  from quantize_Finite [OF assms] obtain sb cb where b: "b = Finite sb cb e'"
    by auto
  show ?thesis
  proof (cases "c = 0")
    case True
    with assms b show ?thesis
      by (auto simp: quantize_def is_nan_def is_snan_def is_infinite_def split: if_splits)
  next
    case False
    with assms b have res: "s' = s" "c' = rescale c e e'"
      by (auto simp: quantize_def Let_def is_nan_def is_snan_def is_infinite_def split: if_splits)
    show ?thesis
    proof (cases "e \<ge> e'")
      case True
      with res have c': "c' = c * 10 ^ nat (e - e')"
        by (simp add: rescale_def)
      from True have m: "min e e' = e'"
        by simp
      show ?thesis
        unfolding m c' using res(1) b by simp
    next
      case False
      then have m: "min e e' = e" and c': "c' = round_half_even c (nat (e' - e))"
        using res by (simp_all add: rescale_def)
      show ?thesis
        using round_half_even_nearest [of c "nat (e' - e)"] res b
        unfolding m c' by simp
    qed
  qed
qed

lemma example_no_quote:
  "get_best_bid_ask init_provider m = None"
  by (simp add: get_best_bid_ask_def init_provider_def)

text \<open>
  C3, as stated, fails: for a market with no cached quote that the venue does not list
  either (the cache is empty and the refresh brings nothing), \<open>execute\<close> fails on the
  metadata, which it looks up first, and logs the missing configuration, not the missing
  quote.
\<close>

theorem C3_counterexample:
  "get_best_bid_ask init_provider ''BTC-USD'' = None \<and>
   execute (Some []) 1010 1010 init_market_utils init_provider accepting_client
     ''BTC-USD'' ''buy'' (Finite False 10000 (- 1))
   = \<lparr>returned = None, logged = [ConfigurationUnavailable], placed = []\<rparr>"
  by (simp add: exec_defs init_market_utils_def fetch_and_cache_all_markets_def)

text \<open>
  C3, amended. On a market with no cached quote \<open>execute\<close> returns \<open>None\<close> and places no
  order, whatever the metadata is: it fails with \<open>QuoteUnavailable\<close> when the metadata
  lookup returns the market with a trading configuration (from a fresh entry or after a
  refresh), and with \<open>ConfigurationUnavailable\<close> when it does not. No order is priced from
  metadata.
\<close>

theorem C3_no_quote_no_order:
  "get_best_bid_ask prov mkt = None \<longrightarrow>
     execute response now current_time mu prov place_order mkt sd amount =
       \<lparr>returned = None,
        logged = [if \<exists>cfg tc. result (get_market_object response now current_time mu mkt) = Some cfg
                      \<and> trading_config cfg = Some tc
                  then QuoteUnavailable NoSnapshot else ConfigurationUnavailable],
        placed = []\<rparr>"
  by (auto simp: execute_def execute_on_def failed_def split: option.splits)

theorem C3_no_quote_no_order_witness:
  "get_best_bid_ask init_provider ''BTC-USD'' = None \<and>
   execute None 1010 1010 (utils_with (market_with (Finite False 1 0) (Finite False 1 (- 2))))
     init_provider accepting_client ''BTC-USD'' ''buy'' (Finite False 10000 (- 1))
   = \<lparr>returned = None, logged = [QuoteUnavailable NoSnapshot], placed = []\<rparr>"
  using C3_no_quote_no_order
    [where prov = init_provider and mkt = "''BTC-USD''" and response = None and now = 1010
       and current_time = 1010
       and mu = "utils_with (market_with (Finite False 1 0) (Finite False 1 (- 2)))"
       and place_order = accepting_client and sd = "''buy''"
       and amount = "Finite False 10000 (- 1)"]
    example_no_quote [of "''BTC-USD''"]
    example_lookups(1,2) [of "Finite False 1 0" "Finite False 1 (- 2)"]
  by (auto simp del: One_nat_def)

text \<open>
  C4. Whenever \<open>execute\<close> reaches a quantity (metadata with its trading configuration and
  a quote are present, the side is a buy or sell alias, the price of that side converts to
  a Decimal, the division and the quantization succeed) and that quantity is strictly
  below the minimum order size, it returns \<open>None\<close>, logs \<open>BelowMinimumSize\<close> with the
  quantity as computed, and places no order.
\<close>

theorem C4_below_minimum_rejected:
  assumes "result (get_market_object response now current_time mu mkt) = Some cfg"
      and "trading_config cfg = Some tc"
      and "get_best_bid_ask prov mkt = Some rp"
      and "is_buy sd \<or> is_sell sd"
      and "(if is_buy sd then bid_price rp else ask_price rp) \<noteq> []"
      and "Decimal_str (if is_buy sd then bid_price rp else ask_price rp) = Some px"
      and "order_quantity amount px (min_order_size_change tc) = Inr quantity"
      and "dec_lt quantity (min_order_size tc) = Inr True"
  shows "execute response now current_time mu prov place_order mkt sd amount =
           \<lparr>returned = None, logged = [BelowMinimumSize quantity (min_order_size tc)],
            placed = []\<rparr>"
  using assms
  by (auto simp: execute_def execute_on_def place_at_def failed_def split: if_splits)

theorem C4_below_minimum_rejected_witness:
  "result (get_market_object None 1010 1010
       (utils_with (market_with (Finite False 1 0) (Finite False 1 (- 1)))) ''BTC-USD'')
     = Some (market_with (Finite False 1 0) (Finite False 1 (- 1))) \<and>
   trading_config (market_with (Finite False 1 0) (Finite False 1 (- 1)))
     = Some \<lparr>min_order_size = Finite False 1 0, min_order_size_change = Finite False 1 (- 1)\<rparr> \<and>
   get_best_bid_ask (provider_with (quote_of ''100'' ''101'')) ''BTC-USD''
     = Some (quote_of ''100'' ''101'') \<and>
   is_buy ''buy'' \<and>
   Decimal_str (bid_price (quote_of ''100'' ''101'')) = Some (Finite False 100 0) \<and>
   order_quantity (Finite False 500 (- 1)) (Finite False 100 0) (Finite False 1 (- 1))
     = Inr (Finite False 5 (- 1)) \<and>
   dec_lt (Finite False 5 (- 1)) (Finite False 1 0) = Inr True \<and>
   execute None 1010 1010 (utils_with (market_with (Finite False 1 0) (Finite False 1 (- 1))))
     (provider_with (quote_of ''100'' ''101'')) accepting_client ''BTC-USD'' ''buy''
     (Finite False 500 (- 1))
   = \<lparr>returned = None,
      logged = [BelowMinimumSize (Finite False 5 (- 1)) (Finite False 1 0)], placed = []\<rparr>"
proof -
  have b: "is_buy ''buy''"
    by (simp add: str_defs)
  have t: "(if is_buy ''buy'' then bid_price (quote_of ''100'' ''101'')
            else ask_price (quote_of ''100'' ''101'')) = ''100''"
    by (simp add: b quote_of_def)
  have p: "Decimal_str ''100'' = Some (Finite False 100 0)"
    by (simp add: str_defs)
  have q: "order_quantity (Finite False 500 (- 1)) (Finite False 100 0) (Finite False 1 (- 1))
     = Inr (Finite False 5 (- 1))"
    by (simp add: order_quantity_def dec_defs)
  have l: "dec_lt (Finite False 5 (- 1)) (Finite False 1 0) = Inr True"
    by (simp add: dec_defs)
  note look = example_lookups(1,2) [of "Finite False 1 0" "Finite False 1 (- 1)"]
    example_lookups(3) [of "quote_of ''100'' ''101''"]
  have "execute None 1010 1010 (utils_with (market_with (Finite False 1 0) (Finite False 1 (- 1))))
     (provider_with (quote_of ''100'' ''101'')) accepting_client ''BTC-USD'' ''buy''
     (Finite False 500 (- 1))
   = \<lparr>returned = None,
      logged = [BelowMinimumSize (Finite False 5 (- 1))
                 (min_order_size \<lparr>min_order_size = Finite False 1 0,
                                  min_order_size_change = Finite False 1 (- 1)\<rparr>)],
      placed = []\<rparr>"
  proof (rule C4_below_minimum_rejected)
    show "result (get_market_object None 1010 1010
       (utils_with (market_with (Finite False 1 0) (Finite False 1 (- 1)))) ''BTC-USD'')
     = Some (market_with (Finite False 1 0) (Finite False 1 (- 1)))"
      by (rule look(1))
    show "trading_config (market_with (Finite False 1 0) (Finite False 1 (- 1)))
     = Some \<lparr>min_order_size = Finite False 1 0, min_order_size_change = Finite False 1 (- 1)\<rparr>"
      by (rule look(2))
    show "get_best_bid_ask (provider_with (quote_of ''100'' ''101'')) ''BTC-USD''
     = Some (quote_of ''100'' ''101'')"
      by (rule look(3))
    show "is_buy ''buy'' \<or> is_sell ''buy''"
      using b by simp
    show "(if is_buy ''buy'' then bid_price (quote_of ''100'' ''101'')
            else ask_price (quote_of ''100'' ''101'')) \<noteq> []"
      unfolding t by simp
    show "Decimal_str (if is_buy ''buy'' then bid_price (quote_of ''100'' ''101'')
            else ask_price (quote_of ''100'' ''101'')) = Some (Finite False 100 0)"
      unfolding t by (rule p)
    show "order_quantity (Finite False 500 (- 1)) (Finite False 100 0)
        (min_order_size_change \<lparr>min_order_size = Finite False 1 0,
                                  min_order_size_change = Finite False 1 (- 1)\<rparr>)
       = Inr (Finite False 5 (- 1))"
      using q by (simp del: One_nat_def)
    show "dec_lt (Finite False 5 (- 1))
        (min_order_size \<lparr>min_order_size = Finite False 1 0,
                           min_order_size_change = Finite False 1 (- 1)\<rparr>) = Inr True"
      using l by (simp del: One_nat_def)
  qed
  then have e: "execute None 1010 1010 (utils_with (market_with (Finite False 1 0) (Finite False 1 (- 1))))
     (provider_with (quote_of ''100'' ''101'')) accepting_client ''BTC-USD'' ''buy''
     (Finite False 500 (- 1))
   = \<lparr>returned = None,
      logged = [BelowMinimumSize (Finite False 5 (- 1)) (Finite False 1 0)], placed = []\<rparr>"
    by (simp del: One_nat_def)
  have p': "Decimal_str (bid_price (quote_of ''100'' ''101'')) = Some (Finite False 100 0)"
    using p by (simp add: quote_of_def)
  show ?thesis
    using look b p' q l e by (simp del: One_nat_def)
qed







section \<open>The metadata cache\<close>

lemma fold_cache_market:
  "market_cache (fold (cache_market t) ms s) =
     fold (\<lambda>m. AList.update (name m) m) ms (market_cache s) \<and>
   cache_timestamps (fold (cache_market t) ms s) =
     fold (\<lambda>m. AList.update (name m) t) ms (cache_timestamps s)"
  by (induction ms arbitrary: s) (simp_all add: cache_market_def)

lemma map_of_fold_update:
  "map_of (fold (\<lambda>m. AList.update (key m) (val m)) ms al) =
     map_of al ++ map_of (rev (map (\<lambda>m. (key m, val m)) ms))"
proof (induction ms arbitrary: al)
  case Nil
  show ?case by simp
next
  case (Cons x xs)
  have "map_of (fold (\<lambda>m. AList.update (key m) (val m)) (x # xs) al) =
        (map_of al)(key x \<mapsto> val x) ++ map_of (rev (map (\<lambda>m. (key m, val m)) xs))"
    by (simp add: Cons.IH update_conv' fun_upd_def)
  also have "\<dots> = map_of al ++ map_of (rev (map (\<lambda>m. (key m, val m)) (x # xs)))"
    by (simp add: map_add_upd_left fun_eq_iff map_add_def split: option.splits)
  finally show ?case .
qed

lemma keys_fold_update:
  "map fst (fold (\<lambda>m. AList.update (key m) (val m)) ms al) =
     fold (\<lambda>m ks. if key m \<in> set ks then ks else ks @ [key m]) ms (map fst al)"
  by (induction ms arbitrary: al) (simp_all add: update_keys)

text \<open>After a successful fetch a fetched name holds a fetched market of that name.\<close>

lemma fetched_entry:
  assumes "x \<in> set ms"
  shows "\<exists>y \<in> set ms. name y = name x \<and>
           map_of (market_cache (fold (cache_market t) ms s)) (name x) = Some y"
proof -
  have "name x \<in> fst ` set (rev (map (\<lambda>m. (name m, m)) ms))"
    using assms by force
  then obtain y where y: "map_of (rev (map (\<lambda>m. (name m, m)) ms)) (name x) = Some y"
    by (metis domD dom_map_of_conv_image_fst)
  then have "(name x, y) \<in> set (rev (map (\<lambda>m. (name m, m)) ms))"
    by (rule map_of_SomeD)
  then have "y \<in> set ms \<and> name y = name x"
    by auto
  moreover have "map_of (market_cache (fold (cache_market t) ms s)) (name x) = Some y"
    using y by (simp add: fold_cache_market map_of_fold_update [where key = name and val = "\<lambda>m. m"]
        map_add_def)
  ultimately show ?thesis by blast
qed

lemma fetched_entry_distinct:
  assumes "x \<in> set ms" and "distinct (map name ms)"
  shows "map_of (market_cache (fold (cache_market t) ms s)) (name x) = Some x"
  using fetched_entry [OF assms(1), of t s] assms
  by (auto simp: distinct_map inj_on_def)

lemma fetched_timestamp:
  assumes "x \<in> set ms"
  shows "map_of (cache_timestamps (fold (cache_market t) ms s)) (name x) = Some t"
proof -
  have "name x \<in> fst ` set (rev (map (\<lambda>m. (name m, t)) ms))"
    using assms by force
  then obtain u where u: "map_of (rev (map (\<lambda>m. (name m, t)) ms)) (name x) = Some u"
    by (metis domD dom_map_of_conv_image_fst)
  then have "(name x, u) \<in> set (rev (map (\<lambda>m. (name m, t)) ms))"
    by (rule map_of_SomeD)
  then have "u = t"
    by auto
  then show ?thesis
    using u by (simp add: fold_cache_market map_of_fold_update [where key = name and val = "\<lambda>m. t"]
        map_add_def)
qed

lemma not_fetched_unchanged:
  assumes "k \<notin> name ` set ms"
  shows "map_of (market_cache (fold (cache_market t) ms s)) k = map_of (market_cache s) k \<and>
         map_of (cache_timestamps (fold (cache_market t) ms s)) k = map_of (cache_timestamps s) k"
proof -
  have "k \<notin> fst ` set (rev (map (\<lambda>m. (name m, m)) ms))"
       "k \<notin> fst ` set (rev (map (\<lambda>m. (name m, t)) ms))"
    using assms by force+
  then have "map_of (rev (map (\<lambda>m. (name m, m)) ms)) k = None"
            "map_of (rev (map (\<lambda>m. (name m, t)) ms)) k = None"
    by (simp_all add: map_of_eq_None_iff)
  then show ?thesis
    by (simp add: fold_cache_market map_of_fold_update [where key = name and val = "\<lambda>m. m"]
        map_of_fold_update [where key = name and val = "\<lambda>m. t"] map_add_def)
qed

text \<open>
  The cache is well formed when both dictionaries have the same keys in the same order and
  every timestamp is a reading of a clock that is past its epoch. The empty cache is, and
  a refresh at a positive time keeps it so: every cache the program reaches is well
  formed.
\<close>

lemma cache_ok_init: "cache_ok init_market_utils"
  by (simp add: cache_ok_def init_market_utils_def)

lemma cache_ok_fetch:
  assumes "cache_ok s" and "0 < t"
  shows "cache_ok (fetch_and_cache_all_markets response t s)"
proof (cases response)
  case None
  then show ?thesis
    using assms by (simp add: fetch_and_cache_all_markets_def)
next
  case (Some ms)
  let ?s' = "fold (cache_market t) ms s"
  have "(map_of (market_cache ?s') k = None) = (map_of (cache_timestamps ?s') k = None) \<and>
        (\<forall>stamp. map_of (cache_timestamps ?s') k = Some stamp \<longrightarrow> 0 < stamp)" for k
  proof (cases "k \<in> name ` set ms")
    case True
    then obtain x where x: "x \<in> set ms" "k = name x"
      by blast
    show ?thesis
      using fetched_entry [OF x(1), of t s] fetched_timestamp [OF x(1), of t s] x(2) assms(2)
      by auto
  next
    case False
    show ?thesis
      using not_fetched_unchanged [OF False, of t s] assms(1)
      by (simp add: cache_ok_def)
  qed
  then show ?thesis
    using Some by (simp add: fetch_and_cache_all_markets_def cache_ok_def)
qed

lemma example_cache_ok: "cache_ok (utils_with m)"
  by (simp add: cache_ok_def utils_with_def)

text \<open>
  C5. On a well-formed cache: if the cache holds an entry for the market whose age is
  strictly less than 60 seconds, \<open>get_market_object\<close> returns it, fetches nothing and
  leaves the cache as it is. Otherwise it makes exactly one bulk fetch; when the fetch
  succeeds every fetched name holds a fetched market of that name (the fetched market
  itself when the names are distinct) with the new timestamp, and every other entry is
  as before; when the fetch fails the cache is as before; and the value returned is the
  entry of the market in the cache after the fetch, absent when there is none.
\<close>

theorem C5_get_market_object:
  assumes "cache_ok s"
  shows
    "((\<exists>m stamp. map_of (market_cache s) mkt = Some m \<and>
         map_of (cache_timestamps s) mkt = Some stamp \<and> now - stamp < 60)
      \<longrightarrow> get_market_object response now current_time s mkt =
            \<lparr>result = map_of (market_cache s) mkt, utils = s, fetches = 0\<rparr>) \<and>
     (\<not> (\<exists>m stamp. map_of (market_cache s) mkt = Some m \<and>
         map_of (cache_timestamps s) mkt = Some stamp \<and> now - stamp < 60)
      \<longrightarrow> fetches (get_market_object response now current_time s mkt) = 1 \<and>
          result (get_market_object response now current_time s mkt) =
            map_of (market_cache (utils (get_market_object response now current_time s mkt))) mkt \<and>
          (response = None \<longrightarrow> utils (get_market_object response now current_time s mkt) = s) \<and>
          (\<forall>fetched. response = Some fetched \<longrightarrow>
             (\<forall>x \<in> set fetched.
                map_of (cache_timestamps (utils (get_market_object response now current_time s mkt)))
                  (name x) = Some current_time \<and>
                (\<exists>y \<in> set fetched. name y = name x \<and>
                   map_of (market_cache (utils (get_market_object response now current_time s mkt)))
                     (name x) = Some y) \<and>
                (distinct (map name fetched) \<longrightarrow>
                   map_of (market_cache (utils (get_market_object response now current_time s mkt)))
                     (name x) = Some x)) \<and>
             (\<forall>k. k \<notin> name ` set fetched \<longrightarrow>
                map_of (market_cache (utils (get_market_object response now current_time s mkt))) k
                  = map_of (market_cache s) k \<and>
                map_of (cache_timestamps (utils (get_market_object response now current_time s mkt))) k
                  = map_of (cache_timestamps s) k)))"
proof -
  let ?fresh = "\<exists>m stamp. map_of (market_cache s) mkt = Some m \<and>
         map_of (cache_timestamps s) mkt = Some stamp \<and> now - stamp < 60"
  let ?r = "get_market_object response now current_time s mkt"
  have hit: "?r = \<lparr>result = map_of (market_cache s) mkt, utils = s, fetches = 0\<rparr>" if ?fresh
  proof -
    from that obtain m stamp where e: "map_of (market_cache s) mkt = Some m"
      "map_of (cache_timestamps s) mkt = Some stamp" "now - stamp < 60"
      by blast
    from assms e(2) have "stamp \<noteq> 0"
      by (auto simp: cache_ok_def)
    with e show ?thesis
      by (simp add: get_market_object_def CACHE_DURATION_SECONDS_def)
  qed
  have miss: "?r = \<lparr>result = map_of (market_cache (fetch_and_cache_all_markets response current_time s)) mkt,
                    utils = fetch_and_cache_all_markets response current_time s, fetches = 1\<rparr>"
    if "\<not> ?fresh"
    using that
    by (auto simp: get_market_object_def CACHE_DURATION_SECONDS_def Let_def split: option.splits)
  have fetched: "(\<forall>x \<in> set fetched.
         map_of (cache_timestamps (fetch_and_cache_all_markets (Some fetched) current_time s))
           (name x) = Some current_time \<and>
         (\<exists>y \<in> set fetched. name y = name x \<and>
            map_of (market_cache (fetch_and_cache_all_markets (Some fetched) current_time s))
              (name x) = Some y) \<and>
         (distinct (map name fetched) \<longrightarrow>
            map_of (market_cache (fetch_and_cache_all_markets (Some fetched) current_time s))
              (name x) = Some x)) \<and>
      (\<forall>k. k \<notin> name ` set fetched \<longrightarrow>
         map_of (market_cache (fetch_and_cache_all_markets (Some fetched) current_time s)) k
           = map_of (market_cache s) k \<and>
         map_of (cache_timestamps (fetch_and_cache_all_markets (Some fetched) current_time s)) k
           = map_of (cache_timestamps s) k)" for fetched
    using fetched_entry [of _ fetched current_time s]
      fetched_entry_distinct [of _ fetched current_time s]
      fetched_timestamp [of _ fetched current_time s]
      not_fetched_unchanged [of _ fetched current_time s]
    by (simp add: fetch_and_cache_all_markets_def)
  show ?thesis
  proof (intro conjI impI)
    assume ?fresh
    then show "?r = \<lparr>result = map_of (market_cache s) mkt, utils = s, fetches = 0\<rparr>"
      by (rule hit)
  next
    assume n: "\<not> ?fresh"
    show "fetches ?r = 1"
      by (simp add: miss [OF n])
    show "result ?r = map_of (market_cache (utils ?r)) mkt"
      by (simp add: miss [OF n])
    show "utils ?r = s" if "response = None"
      using that miss [OF n] by (simp add: fetch_and_cache_all_markets_def)
    show "\<forall>fetched. response = Some fetched \<longrightarrow>
             (\<forall>x \<in> set fetched.
                map_of (cache_timestamps (utils ?r)) (name x) = Some current_time \<and>
                (\<exists>y \<in> set fetched. name y = name x \<and>
                   map_of (market_cache (utils ?r)) (name x) = Some y) \<and>
                (distinct (map name fetched) \<longrightarrow>
                   map_of (market_cache (utils ?r)) (name x) = Some x)) \<and>
             (\<forall>k. k \<notin> name ` set fetched \<longrightarrow>
                map_of (market_cache (utils ?r)) k = map_of (market_cache s) k \<and>
                map_of (cache_timestamps (utils ?r)) k = map_of (cache_timestamps s) k)"
    proof (intro allI impI)
      fix fetched
      assume r: "response = Some fetched"
      have u: "utils ?r = fetch_and_cache_all_markets (Some fetched) current_time s"
        using miss [OF n] r by simp
      show "(\<forall>x \<in> set fetched.
                map_of (cache_timestamps (utils ?r)) (name x) = Some current_time \<and>
                (\<exists>y \<in> set fetched. name y = name x \<and>
                   map_of (market_cache (utils ?r)) (name x) = Some y) \<and>
                (distinct (map name fetched) \<longrightarrow>
                   map_of (market_cache (utils ?r)) (name x) = Some x)) \<and>
             (\<forall>k. k \<notin> name ` set fetched \<longrightarrow>
                map_of (market_cache (utils ?r)) k = map_of (market_cache s) k \<and>
                map_of (cache_timestamps (utils ?r)) k = map_of (cache_timestamps s) k)"
        unfolding u by (rule fetched)
    qed
  qed
qed

theorem C5_get_market_object_witness:
  "cache_ok (utils_with (market_with (Finite False 1 0) (Finite False 1 (- 2)))) \<and>
   get_market_object None 1010 1011
       (utils_with (market_with (Finite False 1 0) (Finite False 1 (- 2)))) ''BTC-USD''
     = \<lparr>result = Some (market_with (Finite False 1 0) (Finite False 1 (- 2))),
        utils = utils_with (market_with (Finite False 1 0) (Finite False 1 (- 2))),
        fetches = 0\<rparr> \<and>
   fetches (get_market_object (Some [market_with (Finite False 2 0) (Finite False 1 (- 3))]) 1060 1061
       (utils_with (market_with (Finite False 1 0) (Finite False 1 (- 2)))) ''BTC-USD'') = 1 \<and>
   result (get_market_object (Some [market_with (Finite False 2 0) (Finite False 1 (- 3))]) 1060 1061
       (utils_with (market_with (Finite False 1 0) (Finite False 1 (- 2)))) ''BTC-USD'')
     = Some (market_with (Finite False 2 0) (Finite False 1 (- 3))) \<and>
   map_of (cache_timestamps (utils
       (get_market_object (Some [market_with (Finite False 2 0) (Finite False 1 (- 3))]) 1060 1061
       (utils_with (market_with (Finite False 1 0) (Finite False 1 (- 2)))) ''BTC-USD'')))
       ''BTC-USD'' = Some 1061"
proof -
  let ?old = "market_with (Finite False 1 0) (Finite False 1 (- 2))"
  let ?new = "market_with (Finite False 2 0) (Finite False 1 (- 3))"
  have ok: "cache_ok (utils_with ?old)"
    by (rule example_cache_ok)
  have fresh: "\<exists>m stamp. map_of (market_cache (utils_with ?old)) ''BTC-USD'' = Some m \<and>
      map_of (cache_timestamps (utils_with ?old)) ''BTC-USD'' = Some stamp \<and> 1010 - stamp < 60"
    by (simp add: utils_with_def market_with_def)
  have stale: "\<not> (\<exists>m stamp. map_of (market_cache (utils_with ?old)) ''BTC-USD'' = Some m \<and>
      map_of (cache_timestamps (utils_with ?old)) ''BTC-USD'' = Some stamp \<and> 1060 - stamp < 60)"
    by (simp add: utils_with_def market_with_def)
  have n: "name ?new = ''BTC-USD''" "map_of (market_cache (utils_with ?old)) ''BTC-USD'' = Some ?old"
    by (simp_all add: utils_with_def market_with_def)
  note hit = C5_get_market_object [OF ok, where mkt = "''BTC-USD''" and now = 1010
      and response = None and current_time = 1011, THEN conjunct1, rule_format, OF fresh]
  note miss = C5_get_market_object [OF ok, where mkt = "''BTC-USD''" and now = 1060
      and response = "Some [?new]" and current_time = 1061, THEN conjunct2, rule_format, OF stale]
  from miss have m: "fetches (get_market_object (Some [?new]) 1060 1061 (utils_with ?old) ''BTC-USD'') = 1"
    "result (get_market_object (Some [?new]) 1060 1061 (utils_with ?old) ''BTC-USD'') =
       map_of (market_cache (utils (get_market_object (Some [?new]) 1060 1061 (utils_with ?old) ''BTC-USD''))) ''BTC-USD''"
    "map_of (cache_timestamps (utils (get_market_object (Some [?new]) 1060 1061 (utils_with ?old) ''BTC-USD''))) (name ?new) = Some 1061"
    "map_of (market_cache (utils (get_market_object (Some [?new]) 1060 1061 (utils_with ?old) ''BTC-USD''))) (name ?new) = Some ?new"
    by simp_all
  show ?thesis
    using ok hit m n by (simp del: One_nat_def)
qed

lemma sorted_by_volume:
  "sorted_wrt (\<lambda>a b. snd b \<le> snd a) (sort_by_volume items)"
proof -
  have "sorted (map (\<lambda>item. - snd item) (sort_by_volume items))"
    by (simp add: sort_by_volume_def)
  then show ?thesis
    by (simp add: sorted_map) 
qed

lemma with_volume_iff:
  "(m, v) \<in> set (with_volume ms) \<longleftrightarrow> m \<in> set ms \<and> daily_volume m = Some v"
  by (auto simp: with_volume_def split: option.splits)

lemma py_prefix_subset: "set (py_prefix n xs) \<subseteq> set xs"
  by (auto simp: py_prefix_def dest: in_set_takeD)

lemma py_prefix_sorted: "sorted_wrt P xs \<Longrightarrow> sorted_wrt P (py_prefix n xs)"
  by (simp add: py_prefix_def)

lemma ranked_sorted:
  "sorted_wrt (\<lambda>a b. the (daily_volume b) \<le> the (daily_volume a))
     (map fst (py_prefix n (sort_by_volume (with_volume ms))))"
proof -
  let ?items = "py_prefix n (sort_by_volume (with_volume ms))"
  have s: "sorted_wrt (\<lambda>a b. snd b \<le> snd a) ?items"
    by (rule py_prefix_sorted) (rule sorted_by_volume)
  have v: "daily_volume (fst item) = Some (snd item)" if "item \<in> set ?items" for item
  proof -
    from that have "item \<in> set (with_volume ms)"
      using py_prefix_subset [of n "sort_by_volume (with_volume ms)"]
      by (auto simp: sort_by_volume_def)
    then show ?thesis
      using with_volume_iff [of "fst item" "snd item" ms] by simp
  qed
  have "sorted_wrt (\<lambda>a b. the (daily_volume (fst b)) \<le> the (daily_volume (fst a))) ?items"
    by (rule sorted_wrt_mono_rel [OF _ s]) (simp add: v)
  then show ?thesis
    by (simp add: sorted_wrt_map)
qed

lemma ranked_members:
  "m \<in> set (map fst (py_prefix n (sort_by_volume (with_volume ms)))) \<Longrightarrow>
     m \<in> set ms \<and> daily_volume m \<noteq> None"
proof -
  assume "m \<in> set (map fst (py_prefix n (sort_by_volume (with_volume ms))))"
  then obtain v where "(m, v) \<in> set (py_prefix n (sort_by_volume (with_volume ms)))"
    by auto
  then have "(m, v) \<in> set (with_volume ms)"
    using py_prefix_subset [of n "sort_by_volume (with_volume ms)"]
    by (auto simp: sort_by_volume_def)
  then show ?thesis
    by (simp add: with_volume_iff)
qed

lemma ranked_all:
  assumes "int (length ms) \<le> n"
  shows "set (map fst (py_prefix n (sort_by_volume (with_volume ms)))) =
           {m \<in> set ms. daily_volume m \<noteq> None}"
proof -
  have "length (with_volume ms) \<le> length ms"
    by (induction ms) (auto simp: with_volume_def split: option.splits)
  with assms have "py_prefix n (sort_by_volume (with_volume ms)) = sort_by_volume (with_volume ms)"
    by (simp add: py_prefix_def sort_by_volume_def)
  then have "set (map fst (py_prefix n (sort_by_volume (with_volume ms)))) =
      fst ` set (with_volume ms)"
    by (simp add: sort_by_volume_def)
  also have "\<dots> = {m \<in> set ms. daily_volume m \<noteq> None}"
  proof (intro set_eqI iffI)
    fix m
    assume "m \<in> fst ` set (with_volume ms)"
    then obtain v where "(m, v) \<in> set (with_volume ms)"
      by auto
    then show "m \<in> {m \<in> set ms. daily_volume m \<noteq> None}"
      by (simp add: with_volume_iff)
  next
    fix m
    assume "m \<in> {m \<in> set ms. daily_volume m \<noteq> None}"
    then obtain v where "m \<in> set ms" "daily_volume m = Some v"
      by auto
    then have "(m, v) \<in> set (with_volume ms)"
      by (simp add: with_volume_iff)
    then show "m \<in> fst ` set (with_volume ms)"
      by force
  qed
  finally show ?thesis .
qed

lemmas markets_defs =
  get_markets_def CACHE_DURATION_SECONDS_def fetch_and_cache_all_markets_def py_prefix_def
  sort_by_volume_def with_volume_def volume_utils_def market_of_def

lemma example_all_markets:
  "get_markets None 1010 1010 volume_utils None =
     \<lparr>result = [market_of ''AAA-USD'' (Some 1), market_of ''BBB-USD'' (Some 2),
                market_of ''CCC-USD'' (Some (- 3)), market_of ''DDD-USD'' None],
      utils = volume_utils, fetches = 0\<rparr>"
  by (simp add: markets_defs)

lemma example_top_markets:
  "get_markets None 1010 1010 volume_utils (Some 10) =
     \<lparr>result = [market_of ''BBB-USD'' (Some 2), market_of ''AAA-USD'' (Some 1),
                market_of ''CCC-USD'' (Some (- 3))],
      utils = volume_utils, fetches = 0\<rparr>"
  by (simp add: markets_defs)

text \<open>
  When the cache is empty \<open>get_markets\<close> makes no refresh and returns the empty list: the
  test \<open>if self._market_cache and self._cache_timestamps\<close> guards both refreshing
  branches, so the branch commented \<open>If cache is empty\<close> is never taken.
\<close>

lemma get_markets_empty_cache:
  "get_markets response now current_time init_market_utils top_n =
     \<lparr>result = [], utils = init_market_utils, fetches = 0\<rparr>"
  by (simp add: get_markets_def init_market_utils_def)

text \<open>
  C7, as stated, fails. Without \<open>top_n\<close> the cached markets come back in cache order,
  neither sorted nor filtered: volume 1 before volume 2, then the market of volume -3 and
  the one whose volume does not convert. With \<open>top_n\<close> the market of volume -3 is listed:
  a non-positive volume is not excluded.
\<close>

theorem C7_counterexample:
  "result (get_markets None 1010 1010 volume_utils None) =
     [market_of ''AAA-USD'' (Some 1), market_of ''BBB-USD'' (Some 2),
      market_of ''CCC-USD'' (Some (- 3)), market_of ''DDD-USD'' None] \<and>
   result (get_markets None 1010 1010 volume_utils (Some 10)) =
     [market_of ''BBB-USD'' (Some 2), market_of ''AAA-USD'' (Some 1),
      market_of ''CCC-USD'' (Some (- 3))]"
  by (simp add: example_all_markets example_top_markets)

text \<open>
  C7, amended. If the cache is not empty and every cached timestamp is stale (age at least
  60 seconds), \<open>get_markets\<close> makes one bulk refresh first; if some timestamp is fresh it
  makes none. When \<open>top_n\<close> is given, the result is the markets of the cache (after the
  refresh, if any) whose volume converts to a float, non-positive volumes included, in
  descending order of volume (markets of equal volume in cache order), cut to its first
  \<open>top_n\<close> entries (\<open>[:top_n]\<close>). When \<open>top_n\<close> is not given, the result is every market of
  the cache in cache order, neither sorted nor filtered.
\<close>

theorem C7_get_markets:
  "(market_cache s \<noteq> [] \<and> cache_timestamps s \<noteq> [] \<and>
    (\<forall>stamp \<in> snd ` set (cache_timestamps s). 60 \<le> now - stamp)
    \<longrightarrow> fetches (get_markets response now current_time s top_n) = 1 \<and>
        utils (get_markets response now current_time s top_n) =
          fetch_and_cache_all_markets response current_time s) \<and>
   ((\<exists>stamp \<in> snd ` set (cache_timestamps s). now - stamp < 60)
    \<longrightarrow> fetches (get_markets response now current_time s top_n) = 0 \<and>
        utils (get_markets response now current_time s top_n) = s) \<and>
   (\<forall>n. top_n = Some n \<longrightarrow>
      result (get_markets response now current_time s top_n) =
        map fst (py_prefix n (sort_by_volume (with_volume
          (map snd (market_cache (utils (get_markets response now current_time s top_n))))))) \<and>
      sorted_wrt (\<lambda>a b. the (daily_volume b) \<le> the (daily_volume a))
        (result (get_markets response now current_time s top_n)) \<and>
      (\<forall>m \<in> set (result (get_markets response now current_time s top_n)).
         m \<in> snd ` set (market_cache (utils (get_markets response now current_time s top_n))) \<and>
         daily_volume m \<noteq> None) \<and>
      (0 \<le> n \<longrightarrow> result (get_markets response now current_time s top_n) =
         take (nat n) (map fst (sort_by_volume (with_volume
           (map snd (market_cache (utils (get_markets response now current_time s top_n)))))))) \<and>
      (int (length (market_cache (utils (get_markets response now current_time s top_n)))) \<le> n
         \<longrightarrow> set (result (get_markets response now current_time s top_n)) =
           {m \<in> snd ` set (market_cache (utils (get_markets response now current_time s top_n))).
              daily_volume m \<noteq> None})) \<and>
   (top_n = None \<longrightarrow>
      result (get_markets response now current_time s top_n) =
        map snd (market_cache (utils (get_markets response now current_time s top_n))))"
proof -
  let ?r = "get_markets response now current_time s top_n"
  let ?ms = "map snd (market_cache (utils ?r))"
  have stale: "fetches ?r = 1 \<and> utils ?r = fetch_and_cache_all_markets response current_time s"
    if "market_cache s \<noteq> []" "cache_timestamps s \<noteq> []"
      "\<forall>stamp \<in> snd ` set (cache_timestamps s). 60 \<le> now - stamp"
  proof -
    from that(3) have "\<not> list_ex (\<lambda>stamp. now - stamp < CACHE_DURATION_SECONDS)
        (map snd (cache_timestamps s))"
      by (auto simp: list_ex_iff CACHE_DURATION_SECONDS_def)
    with that(1,2) show ?thesis
      by (simp add: get_markets_def Let_def)
  qed
  have fresh: "fetches ?r = 0 \<and> utils ?r = s"
    if "\<exists>stamp \<in> snd ` set (cache_timestamps s). now - stamp < 60"
  proof -
    from that have "list_ex (\<lambda>stamp. now - stamp < CACHE_DURATION_SECONDS)
        (map snd (cache_timestamps s))"
      by (auto simp: list_ex_iff CACHE_DURATION_SECONDS_def)
    then show ?thesis
      by (simp add: get_markets_def Let_def)
  qed
  have ranked: "result ?r = map fst (py_prefix n (sort_by_volume (with_volume ?ms)))"
    if "top_n = Some n" for n
    using that by (simp add: get_markets_def Let_def py_prefix_def sort_by_volume_def with_volume_def)
  have every: "result ?r = ?ms" if "top_n = None"
    using that by (simp add: get_markets_def Let_def)
  have top: "result ?r = map fst (py_prefix n (sort_by_volume (with_volume ?ms))) \<and>
      sorted_wrt (\<lambda>a b. the (daily_volume b) \<le> the (daily_volume a)) (result ?r) \<and>
      (\<forall>m \<in> set (result ?r). m \<in> snd ` set (market_cache (utils ?r)) \<and> daily_volume m \<noteq> None) \<and>
      (0 \<le> n \<longrightarrow> result ?r = take (nat n) (map fst (sort_by_volume (with_volume ?ms)))) \<and>
      (int (length (market_cache (utils ?r))) \<le> n
         \<longrightarrow> set (result ?r) = {m \<in> snd ` set (market_cache (utils ?r)). daily_volume m \<noteq> None})"
    if n: "top_n = Some n" for n
  proof (intro conjI impI ballI)
    show "result ?r = map fst (py_prefix n (sort_by_volume (with_volume ?ms)))"
      by (rule ranked [OF n])
    show "sorted_wrt (\<lambda>a b. the (daily_volume b) \<le> the (daily_volume a)) (result ?r)"
      unfolding ranked [OF n] by (rule ranked_sorted)
    show "m \<in> snd ` set (market_cache (utils ?r))" if "m \<in> set (result ?r)" for m
      using that ranked_members [of m n ?ms] unfolding ranked [OF n] by simp
    show "daily_volume m \<noteq> None" if "m \<in> set (result ?r)" for m
      using that ranked_members [of m n ?ms] unfolding ranked [OF n] by simp
    show "result ?r = take (nat n) (map fst (sort_by_volume (with_volume ?ms)))" if "0 \<le> n"
      using that unfolding ranked [OF n] by (simp add: py_prefix_def take_map)
    show "set (result ?r) = {m \<in> snd ` set (market_cache (utils ?r)). daily_volume m \<noteq> None}"
      if "int (length (market_cache (utils ?r))) \<le> n"
      using that ranked_all [of ?ms n] unfolding ranked [OF n] by simp
  qed
  show ?thesis
    using stale fresh top every by blast
qed

theorem C7_get_markets_witness:
  "market_cache volume_utils \<noteq> [] \<and> cache_timestamps volume_utils \<noteq> [] \<and>
   list_all (\<lambda>stamp. 60 \<le> 1100 - stamp) (map snd (cache_timestamps volume_utils)) \<and>
   fetches (get_markets None 1100 1101 volume_utils (Some 2)) = 1 \<and>
   result (get_markets None 1100 1101 volume_utils (Some 2)) =
     [market_of ''BBB-USD'' (Some 2), market_of ''AAA-USD'' (Some 1)] \<and>
   (\<exists>stamp \<in> snd ` set (cache_timestamps volume_utils). 1010 - stamp < 60) \<and>
   fetches (get_markets None 1010 1010 volume_utils None) = 0 \<and>
   result (get_markets None 1010 1010 volume_utils None) = map snd (market_cache volume_utils)"
proof -
  have h: "market_cache volume_utils \<noteq> [] \<and> cache_timestamps volume_utils \<noteq> [] \<and>
      (\<forall>stamp \<in> snd ` set (cache_timestamps volume_utils). 60 \<le> 1100 - stamp)"
    by (simp add: volume_utils_def)
  have f: "\<exists>stamp \<in> snd ` set (cache_timestamps volume_utils). 1010 - stamp < 60"
    by (simp add: volume_utils_def)
  note a = C7_get_markets [where s = volume_utils and now = 1100 and current_time = 1101
      and response = None and top_n = "Some 2"]
  note b = C7_get_markets [where s = volume_utils and now = 1010 and current_time = 1010
      and response = None and top_n = None]
  note a' = a [THEN conjunct1, rule_format, OF h]
  from a' have a1: "fetches (get_markets None 1100 1101 volume_utils (Some 2)) = 1"
    by (rule conjunct1)
  from a' have a2: "utils (get_markets None 1100 1101 volume_utils (Some 2)) = volume_utils"
    by (simp add: fetch_and_cache_all_markets_def)
  note a'' = a [THEN conjunct2, THEN conjunct2, THEN conjunct1, rule_format, OF refl]
  from a'' have "result (get_markets None 1100 1101 volume_utils (Some 2)) =
      map fst (py_prefix 2 (sort_by_volume (with_volume
        (map snd (market_cache (utils (get_markets None 1100 1101 volume_utils (Some 2))))))))"
    by (rule conjunct1)
  then have a3: "result (get_markets None 1100 1101 volume_utils (Some 2)) =
     [market_of ''BBB-USD'' (Some 2), market_of ''AAA-USD'' (Some 1)]"
    unfolding a2
    by (simp add: py_prefix_def sort_by_volume_def with_volume_def volume_utils_def market_of_def)
  note b' = b [THEN conjunct2, THEN conjunct1, rule_format, OF f]
  from b' have b1: "fetches (get_markets None 1010 1010 volume_utils None) = 0"
    and b2: "utils (get_markets None 1010 1010 volume_utils None) = volume_utils"
    by simp_all
  note b'' = b [THEN conjunct2, THEN conjunct2, THEN conjunct2, rule_format, OF refl]
  have b3: "result (get_markets None 1010 1010 volume_utils None) =
      map snd (market_cache volume_utils)"
    using b'' unfolding b2 .
  have l: "list_all (\<lambda>stamp. 60 \<le> 1100 - stamp) (map snd (cache_timestamps volume_utils))"
    by (simp add: volume_utils_def)
  show ?thesis
    using h l f a1 a3 b1 b3 by blast
qed

section \<open>The stream provider\<close>

subsection \<open>What each step changes\<close>

lemma handle_message_fields:
  "active_market_listeners (snd (handle_message mkt snap now_ms s)) = active_market_listeners s"
  "tasks (snd (handle_message mkt snap now_ms s)) = tasks s"
  "connection_tasks (snd (handle_message mkt snap now_ms s)) = connection_tasks s"
  by (simp_all add: handle_message_def split: option.splits)

lemma handle_message_inactive:
  "active_market_listeners s mkt \<noteq> Some True \<Longrightarrow> snd (handle_message mkt snap now_ms s) = s"
  by (simp add: handle_message_def split: option.splits)

lemma handle_message_other:
  "k \<noteq> mkt \<Longrightarrow>
     latest_market_data (snd (handle_message mkt snap now_ms s)) k = latest_market_data s k"
  by (simp add: handle_message_def split: option.splits)

lemma listener_exit_fields:
  "active_market_listeners (listener_exit i s) = active_market_listeners s"
  "connection_tasks (listener_exit i s) = connection_tasks s"
  "length (tasks (listener_exit i s)) = length (tasks s)"
  by (simp_all add: listener_exit_def Let_def)

lemma listener_exit_absent:
  "latest_market_data s k = None \<Longrightarrow> latest_market_data (listener_exit i s) k = None"
  by (simp add: listener_exit_def Let_def)

lemma listener_step_flags:
  "listener_event e \<Longrightarrow> active_market_listeners (step e s) = active_market_listeners s"
  by (cases e) (simp_all add: handle_message_fields listener_exit_fields)

lemma listener_step_absent:
  assumes "listener_event e" and "active_market_listeners s k \<noteq> Some True"
    and "latest_market_data s k = None"
  shows "latest_market_data (step e s) k = None"
proof (cases e)
  case (Message mkt snap now_ms)
  show ?thesis
  proof (cases "mkt = k")
    case True
    with assms Message show ?thesis
      by (simp add: handle_message_inactive)
  next
    case False
    with assms Message show ?thesis
      by (simp add: handle_message_other)
  qed
next
  case (Exit i)
  with assms show ?thesis
    by (simp add: listener_exit_absent)
qed (use assms in simp_all)

lemma listeners_run_absent:
  assumes "list_all listener_event evs" and "active_market_listeners s k \<noteq> Some True"
    and "latest_market_data s k = None"
  shows "latest_market_data (run evs s) k = None \<and>
         active_market_listeners (run evs s) = active_market_listeners s"
  using assms unfolding run_def
proof (induction evs arbitrary: s)
  case Nil
  then show ?case by simp
next
  case (Cons e evs)
  from Cons.prems have e: "listener_event e" and rest: "list_all listener_event evs"
    by simp_all
  have f: "active_market_listeners (step e s) = active_market_listeners s"
    by (rule listener_step_flags [OF e])
  have a: "latest_market_data (step e s) k = None"
    by (rule listener_step_absent [OF e Cons.prems(2,3)])
  from Cons.IH [OF rest _ a] f Cons.prems(2) show ?case
    by simp
qed

lemma listeners_run_flags:
  "list_all listener_event evs \<Longrightarrow>
     active_market_listeners (run evs s) = active_market_listeners s"
  unfolding run_def
  by (induction evs arbitrary: s) (simp_all add: listener_step_flags)

lemma stop_mark_fields:
  "active_market_listeners (stop_mark mkt s) = (active_market_listeners s)(mkt \<mapsto> False)"
  "latest_market_data (stop_mark mkt s) = latest_market_data s"
  "market_connections (stop_mark mkt s) = market_connections s"
  "connection_tasks (stop_mark mkt s) = connection_tasks s"
  "running (stop_mark mkt s) = running s"
  "map is_done (tasks (stop_mark mkt s)) = map is_done (tasks s)"
  "map listens_to (tasks (stop_mark mkt s)) = map listens_to (tasks s)"
  by (simp_all add: stop_mark_def Let_def map_update list_update_same_conv live_task_def
      split: option.splits if_splits)

lemma stop_close_fields:
  "active_market_listeners (stop_close mkt s) = active_market_listeners s"
  "latest_market_data (stop_close mkt s) = latest_market_data s"
  "connection_tasks (stop_close mkt s) = connection_tasks s"
  "running (stop_close mkt s) = running s"
  "tasks (stop_close mkt s) = tasks s"
  by (simp_all add: stop_close_def split: option.splits)

lemma stop_clear_fields:
  "active_market_listeners (stop_clear mkt s) = active_market_listeners s"
  "latest_market_data (stop_clear mkt s) = (latest_market_data s)(mkt := None)"
  "market_connections (stop_clear mkt s) = (market_connections s)(mkt := None)"
  "connection_tasks (stop_clear mkt s) = connection_tasks s"
  "running (stop_clear mkt s) = running s"
  "tasks (stop_clear mkt s) = tasks s"
  by (simp_all add: stop_clear_def)

lemmas stop_fields = stop_mark_fields stop_close_fields stop_clear_fields

lemma stop_market_fields:
  "active_market_listeners (fst (stop_market m acc)) =
     (active_market_listeners (fst acc))(upper m \<mapsto> False)"
  "latest_market_data (fst (stop_market m acc)) = (latest_market_data (fst acc))(upper m := None)"
  "market_connections (fst (stop_market m acc)) (upper m) = None"
  "connection_tasks (fst (stop_market m acc)) = connection_tasks (fst acc)"
  "running (fst (stop_market m acc)) = running (fst acc)"
  "map is_done (tasks (fst (stop_market m acc))) = map is_done (tasks (fst acc))"
  "map listens_to (tasks (fst (stop_market m acc))) = map listens_to (tasks (fst acc))"
  by (simp_all add: stop_market_def Let_def stop_fields)

lemma stop_market_keeps_absent:
  "market_connections (fst acc) k = None \<Longrightarrow> market_connections (fst (stop_market m acc)) k = None"
  by (simp add: stop_market_def Let_def stop_clear_fields stop_close_def stop_mark_fields
      split: option.splits)

lemma stop_loop_tasks:
  "connection_tasks (fst (fold stop_market ms acc)) = connection_tasks (fst acc) \<and>
   running (fst (fold stop_market ms acc)) = running (fst acc) \<and>
   map is_done (tasks (fst (fold stop_market ms acc))) = map is_done (tasks (fst acc)) \<and>
   map listens_to (tasks (fst (fold stop_market ms acc))) = map listens_to (tasks (fst acc))"
  by (induction ms arbitrary: acc) (simp_all add: stop_market_fields)

lemma stop_loop_cleared:
  "m \<in> set ms \<Longrightarrow>
     active_market_listeners (fst (fold stop_market ms acc)) (upper m) = Some False \<and>
     latest_market_data (fst (fold stop_market ms acc)) (upper m) = None \<and>
     market_connections (fst (fold stop_market ms acc)) (upper m) = None"
proof (induction ms arbitrary: acc rule: rev_induct)
  case Nil
  then show ?case by simp
next
  case (snoc x xs)
  show ?case
  proof (cases "upper x = upper m")
    case True
    then show ?thesis
      using stop_market_fields(3) [of x "fold stop_market xs acc"]
      by (simp add: stop_market_fields)
  next
    case False
    with snoc.prems have "m \<in> set xs"
      by auto
    from snoc.IH [OF this, of acc] False show ?thesis
      by (simp add: stop_market_fields stop_market_keeps_absent)
  qed
qed

lemma gather_fields:
  "active_market_listeners (gather stopped s) = active_market_listeners s"
  "latest_market_data (gather stopped s) = latest_market_data s"
  "market_connections (gather stopped s) = market_connections s"
  "connection_tasks (gather stopped s) = connection_tasks s"
  "length (tasks (gather stopped s)) = length (tasks s)"
  by (simp_all add: gather_def)

lemma gather_task:
  "i < length (tasks s) \<Longrightarrow>
     listens_to (tasks (gather stopped s) ! i) = listens_to (tasks s ! i) \<and>
     is_done (tasks (gather stopped s) ! i) = (i \<in> set stopped \<or> is_done (tasks s ! i))"
  by (simp add: gather_def)

lemma stop_finish_fields:
  "active_market_listeners (stop_finish ms stopped s) = active_market_listeners s"
  "latest_market_data (stop_finish ms stopped s) = latest_market_data s"
  "market_connections (stop_finish ms stopped s) = market_connections s"
  "tasks (stop_finish ms stopped s) = tasks s"
proof -
  have "active_market_listeners (fold (\<lambda>pair s'. s'\<lparr>connection_tasks :=
            (connection_tasks s')(upper (fst pair) := None)\<rparr>) ps s) = active_market_listeners s \<and>
        latest_market_data (fold (\<lambda>pair s'. s'\<lparr>connection_tasks :=
            (connection_tasks s')(upper (fst pair) := None)\<rparr>) ps s) = latest_market_data s \<and>
        market_connections (fold (\<lambda>pair s'. s'\<lparr>connection_tasks :=
            (connection_tasks s')(upper (fst pair) := None)\<rparr>) ps s) = market_connections s \<and>
        tasks (fold (\<lambda>pair s'. s'\<lparr>connection_tasks :=
            (connection_tasks s')(upper (fst pair) := None)\<rparr>) ps s) = tasks s"
    for ps :: "(string \<times> nat) list"
    by (induction ps arbitrary: s) simp_all
  then show
    "active_market_listeners (stop_finish ms stopped s) = active_market_listeners s"
    "latest_market_data (stop_finish ms stopped s) = latest_market_data s"
    "market_connections (stop_finish ms stopped s) = market_connections s"
    "tasks (stop_finish ms stopped s) = tasks s"
    by (simp_all add: stop_finish_def)
qed

lemma stop_finish_entry:
  "connection_tasks (stop_finish ms stopped s) k =
     (if k \<in> upper ` fst ` set (zip ms stopped) then None else connection_tasks s k)"
proof -
  have "connection_tasks (fold (\<lambda>pair s'. s'\<lparr>connection_tasks :=
            (connection_tasks s')(upper (fst pair) := None)\<rparr>) ps s) k =
        (if k \<in> upper ` fst ` set ps then None else connection_tasks s k)"
    for ps :: "(string \<times> nat) list"
    by (induction ps arbitrary: s) auto
  then show ?thesis
    by (simp add: stop_finish_def)
qed

lemma stop_specific_streams_cleared:
  assumes "m \<in> set ms"
  shows "active_market_listeners (stop_specific_streams ms s) (upper m) = Some False \<and>
         latest_market_data (stop_specific_streams ms s) (upper m) = None \<and>
         market_connections (stop_specific_streams ms s) (upper m) = None"
  using stop_loop_cleared [OF assms, of "(s, [])"]
  by (simp add: stop_specific_streams_def stop_loop_def Let_def stop_finish_fields gather_fields)

subsection \<open>No write after a stop\<close>

lemma example_message_stored:
  "handle_message ''BTC-USD'' example_snapshot 5 streaming_provider =
     (Stored, streaming_provider\<lparr>latest_market_data :=
        [''BTC-USD'' \<mapsto> \<lparr>bid_price = ''102'', bid_qty = ''1'', ask_price = ''103'',
                            ask_qty = ''0'', timestamp = 9\<rparr>]\<rparr>)"
  by (simp add: handle_message_def example_snapshot_def streaming_provider_def first_level_def
      truthy_def)

text \<open>
  C2. The listener of a market whose flag is not true writes nothing: the message is
  handled and the store is left as it is. Hence a stop leaves the market absent whatever
  the listeners do meanwhile: messages handled and tasks leaving their loops while the
  stop waits for the connection to close (between clearing the flag and deleting the
  quote), while it waits for the cancelled tasks, or after it has returned do not bring a
  quote back, and \<open>get_best_bid_ask\<close> returns absent under any casing of the name.
\<close>

theorem C2_no_write_after_stop:
  "(active_market_listeners s mkt \<noteq> Some True \<longrightarrow>
      snd (handle_message mkt snap now_ms s) = s \<and>
      fst (handle_message mkt snap now_ms s) \<noteq> Stored) \<and>
   (list_all listener_event evs \<and> list_all listener_event evs' \<longrightarrow>
      latest_market_data
        (run evs' (stop_clear (upper m)
           (run evs (stop_close (upper m) (stop_mark (upper m) s))))) (upper m) = None) \<and>
   (m \<in> set markets \<and> list_all listener_event evs \<and> list_all listener_event evs' \<longrightarrow>
      get_best_bid_ask
        (run evs' (stop_finish markets (snd (stop_loop markets s))
           (gather (snd (stop_loop markets s)) (run evs (fst (stop_loop markets s)))))) m = None) \<and>
   (m \<in> set markets \<and> list_all listener_event evs' \<longrightarrow>
      get_best_bid_ask (run evs' (stop_specific_streams markets s)) m = None \<and>
      get_best_bid_ask (run evs' (stop_specific_streams markets s)) (upper m) = None)"
proof (intro conjI impI)
  assume "active_market_listeners s mkt \<noteq> Some True"
  then show "snd (handle_message mkt snap now_ms s) = s"
    and "fst (handle_message mkt snap now_ms s) \<noteq> Stored"
    by (simp_all add: handle_message_def split: option.splits)
next
  assume a: "list_all listener_event evs \<and> list_all listener_event evs'"
  let ?s1 = "stop_close (upper m) (stop_mark (upper m) s)"
  have f1: "active_market_listeners ?s1 (upper m) = Some False"
    by (simp add: stop_fields)
  have f2: "active_market_listeners (run evs ?s1) (upper m) = Some False"
    using a f1 by (simp add: listeners_run_flags)
  let ?s3 = "stop_clear (upper m) (run evs ?s1)"
  have "active_market_listeners ?s3 (upper m) \<noteq> Some True" "latest_market_data ?s3 (upper m) = None"
    using f2 by (simp_all add: stop_fields)
  with a show "latest_market_data (run evs' ?s3) (upper m) = None"
    using listeners_run_absent [of evs' ?s3 "upper m"] by simp
next
  assume a: "m \<in> set markets \<and> list_all listener_event evs \<and> list_all listener_event evs'"
  let ?s1 = "fst (stop_loop markets s)"
  from a have c: "active_market_listeners ?s1 (upper m) = Some False"
    "latest_market_data ?s1 (upper m) = None"
    using stop_loop_cleared [of m markets "(s, [])"] by (simp_all add: stop_loop_def)
  from a c have r: "latest_market_data (run evs ?s1) (upper m) = None"
    "active_market_listeners (run evs ?s1) (upper m) = Some False"
    using listeners_run_absent [of evs ?s1 "upper m"] by simp_all
  let ?s3 = "stop_finish markets (snd (stop_loop markets s))
           (gather (snd (stop_loop markets s)) (run evs ?s1))"
  from r have "active_market_listeners ?s3 (upper m) \<noteq> Some True"
    "latest_market_data ?s3 (upper m) = None"
    by (simp_all add: stop_finish_fields gather_fields)
  with a show "get_best_bid_ask (run evs' ?s3) m = None"
    using listeners_run_absent [of evs' ?s3 "upper m"] by (simp add: get_best_bid_ask_def)
next
  assume a: "m \<in> set markets \<and> list_all listener_event evs'"
  then have "active_market_listeners (stop_specific_streams markets s) (upper m) \<noteq> Some True"
    "latest_market_data (stop_specific_streams markets s) (upper m) = None"
    using stop_specific_streams_cleared [of m markets s] by simp_all
  with a have n: "latest_market_data (run evs' (stop_specific_streams markets s)) (upper m) = None"
    using listeners_run_absent [of evs' "stop_specific_streams markets s" "upper m"] by simp
  then show "get_best_bid_ask (run evs' (stop_specific_streams markets s)) m = None"
    by (simp add: get_best_bid_ask_def)
  from n show "get_best_bid_ask (run evs' (stop_specific_streams markets s)) (upper m) = None"
    by (simp add: get_best_bid_ask_def upper_idem)
qed

theorem C2_no_write_after_stop_witness:
  "fst (handle_message ''BTC-USD'' example_snapshot 5 streaming_provider) = Stored \<and>
   get_best_bid_ask streaming_provider ''BTC-USD'' = Some (quote_of ''100'' ''101'') \<and>
   list_all listener_event [Message ''BTC-USD'' example_snapshot 5, Exit 0] \<and>
   get_best_bid_ask
     (run [Message ''BTC-USD'' example_snapshot 5, Exit 0]
        (stop_specific_streams [''btc-usd''] streaming_provider)) ''BTC-USD'' = None"
proof -
  have l: "list_all listener_event [Message ''BTC-USD'' example_snapshot 5, Exit 0]"
    by simp
  have m: "''btc-usd'' \<in> set [''btc-usd'']"
    by simp
  note t = C2_no_write_after_stop [where m = "''btc-usd''" and markets = "[''btc-usd'']"
      and evs' = "[Message ''BTC-USD'' example_snapshot 5, Exit 0]" and s = streaming_provider,
      THEN conjunct2, THEN conjunct2, THEN conjunct2, rule_format, OF conjI, OF m l]
  from t have "get_best_bid_ask
     (run [Message ''BTC-USD'' example_snapshot 5, Exit 0]
        (stop_specific_streams [''btc-usd''] streaming_provider)) (upper ''btc-usd'') = None"
    by (rule conjunct2)
  then have a: "get_best_bid_ask
     (run [Message ''BTC-USD'' example_snapshot 5, Exit 0]
        (stop_specific_streams [''btc-usd''] streaming_provider)) ''BTC-USD'' = None"
    by (simp only: upper_btc_usd)
  have q: "get_best_bid_ask streaming_provider ''BTC-USD'' = Some (quote_of ''100'' ''101'')"
    by (simp add: get_best_bid_ask_def streaming_provider_def upper_BTC_USD)
  show ?thesis
    using l a q by (simp add: example_message_stored)
qed

subsection \<open>Who deletes a stopped market's entries\<close>


lemma stop_loop_stopped:
  "set (snd (fold stop_market ms acc)) =
     set (snd acc) \<union> {i. \<exists>m \<in> set ms. live_task (fst acc) (upper m) = Some i}"
proof (induction ms arbitrary: acc)
  case Nil
  show ?case by simp
next
  case (Cons x xs)
  have same: "live_task (fst (stop_market x acc)) k = live_task (fst acc) k" for k
  proof -
    have "length (tasks (fst (stop_market x acc))) = length (tasks (fst acc))"
      using stop_market_fields(6) [of x acc] by (metis length_map)
    moreover have "is_done (tasks (fst (stop_market x acc)) ! i) = is_done (tasks (fst acc) ! i)"
      if "i < length (tasks (fst acc))" for i
      using stop_market_fields(6) [of x acc] that by (metis calculation nth_map)
    ultimately show ?thesis
      by (auto simp: live_task_def stop_market_fields(4) split: option.splits)
  qed
  have "snd (stop_market x acc) =
      snd acc @ (case live_task (fst acc) (upper x) of Some i \<Rightarrow> [i] | None \<Rightarrow> [])"
    by (simp add: stop_market_def Let_def)
  then have "set (snd (stop_market x acc)) =
      set (snd acc) \<union> {i. live_task (fst acc) (upper x) = Some i}"
    by (auto split: option.splits)
  then show ?case
    by (auto simp: Cons.IH same)
qed



subsection \<open>Starting streams\<close>

lemma live_task_flags [simp]:
  "live_task (s\<lparr>active_market_listeners := flags\<rparr>) k = live_task s k"
  "live_task (s\<lparr>running := r\<rparr>) k = live_task s k"
  by (cases "connection_tasks s k"; simp add: live_task_def)+

lemma start_market_live:
  "live_task s (upper m) = Some i \<Longrightarrow>
     start_market m s =
       s\<lparr>active_market_listeners := (active_market_listeners s)(upper m \<mapsto> True)\<rparr>"
  by (simp add: start_market_def Let_def)

lemma start_market_spawn:
  "live_task s (upper m) = None \<Longrightarrow>
     start_market m s =
       s\<lparr>active_market_listeners := (active_market_listeners s)(upper m \<mapsto> True),
         tasks := tasks s @ [\<lparr>listens_to = upper m, cancel_requested = False, is_done = False\<rparr>],
         connection_tasks := (connection_tasks s)(upper m \<mapsto> length (tasks s))\<rparr>"
  by (simp add: start_market_def Let_def)

lemma start_market_flags:
  "active_market_listeners (start_market m s) = (active_market_listeners s)(upper m \<mapsto> True)"
  "running (start_market m s) = running s"
  "latest_market_data (start_market m s) = latest_market_data s"
  by (cases "live_task s (upper m)"; simp add: start_market_live start_market_spawn)+

lemma start_market_is_live: "live_task (start_market m s) (upper m) \<noteq> None"
proof (cases "live_task s (upper m)")
  case None
  show ?thesis
    unfolding start_market_spawn [OF None] by (simp add: live_task_def)
next
  case (Some i)
  then show ?thesis
    by (simp add: start_market_live)
qed

lemma start_market_keeps_live:
  "live_task s k \<noteq> None \<Longrightarrow> live_task (start_market m s) k \<noteq> None"
proof (cases "live_task s (upper m)")
  case None
  assume "live_task s k \<noteq> None"
  with None have "k \<noteq> upper m"
    by auto
  moreover from \<open>live_task s k \<noteq> None\<close> obtain i
    where "connection_tasks s k = Some i" "i < length (tasks s)" "\<not> is_done (tasks s ! i)"
    by (auto simp: live_task_def split: option.splits if_splits)
  ultimately show ?thesis
    unfolding start_market_spawn [OF None] by (simp add: live_task_def nth_append)
next
  case (Some i)
  assume "live_task s k \<noteq> None"
  then show ?thesis
    by (simp add: start_market_live [OF Some])
qed

lemma start_market_noop:
  assumes "live_task s (upper m) \<noteq> None" and "active_market_listeners s (upper m) = Some True"
  shows "start_market m s = s"
proof -
  from assms(1) obtain i where "live_task s (upper m) = Some i"
    by auto
  moreover from assms(2)
  have "(active_market_listeners s)(upper m \<mapsto> True) = active_market_listeners s"
    by (rule fun_upd_idem)
  ultimately show ?thesis
    by (simp add: start_market_live)
qed

lemma fold_start_market_started:
  "running (fold start_market ms s) = running s \<and>
   (\<forall>k. (live_task s k \<noteq> None \<or> k \<in> upper ` set ms) \<longrightarrow>
        live_task (fold start_market ms s) k \<noteq> None) \<and>
   (\<forall>k. (active_market_listeners s k = Some True \<or> k \<in> upper ` set ms) \<longrightarrow>
        active_market_listeners (fold start_market ms s) k = Some True)"
proof (induction ms arbitrary: s)
  case Nil
  show ?case by simp
next
  case (Cons x xs)
  note ih = Cons.IH [of "start_market x s"]
  show ?case
  proof (intro conjI allI impI)
    show "running (fold start_market (x # xs) s) = running s"
      using ih by (simp add: start_market_flags)
  next
    fix k
    assume "live_task s k \<noteq> None \<or> k \<in> upper ` set (x # xs)"
    then have "live_task (start_market x s) k \<noteq> None \<or> k \<in> upper ` set xs"
      using start_market_is_live [of x s] start_market_keeps_live [of s k x] by auto
    with ih show "live_task (fold start_market (x # xs) s) k \<noteq> None"
      by auto
  next
    fix k
    assume "active_market_listeners s k = Some True \<or> k \<in> upper ` set (x # xs)"
    then have "active_market_listeners (start_market x s) k = Some True \<or> k \<in> upper ` set xs"
      by (auto simp: start_market_flags)
    with ih show "active_market_listeners (fold start_market (x # xs) s) k = Some True"
      by auto
  qed
qed

lemma fold_start_market_noop:
  assumes "\<forall>m \<in> set ms. live_task s (upper m) \<noteq> None \<and> active_market_listeners s (upper m) = Some True"
  shows "fold start_market ms s = s"
  using assms by (induction ms) (simp_all add: start_market_noop)

lemma start_streams_twice: "start_streams ms (start_streams ms s) = start_streams ms s"
proof -
  let ?s' = "fold start_market ms (s\<lparr>running := True\<rparr>)"
  note st = fold_start_market_started [of ms "s\<lparr>running := True\<rparr>"]
  from st have r: "?s'\<lparr>running := True\<rparr> = ?s'"
    by simp
  from st have "\<forall>m \<in> set ms. live_task ?s' (upper m) \<noteq> None \<and>
      active_market_listeners ?s' (upper m) = Some True"
    by auto
  then have "fold start_market ms ?s' = ?s'"
    by (rule fold_start_market_noop)
  with r show ?thesis
    by (simp add: start_streams_def)
qed

subsection \<open>One live task for a market\<close>

lemma registered_init: "tasks_registered init_provider"
  by (simp add: tasks_registered_def init_provider_def)

lemma registered_start_market:
  assumes "tasks_registered s"
  shows "tasks_registered (start_market m s)"
proof (cases "live_task s (upper m)")
  case (Some i)
  with assms show ?thesis
    by (simp add: start_market_live tasks_registered_def)
next
  case None
  have other: "listens_to (tasks s ! i) \<noteq> upper m"
    if "i < length (tasks s)" "\<not> is_done (tasks s ! i)" for i
  proof
    assume "listens_to (tasks s ! i) = upper m"
    with assms that have "connection_tasks s (upper m) = Some i"
      by (auto simp: tasks_registered_def)
    with that have "live_task s (upper m) = Some i"
      by (simp add: live_task_def)
    with None show False
      by simp
  qed
  show ?thesis
    unfolding tasks_registered_def start_market_spawn [OF None]
    using assms other by (auto simp: tasks_registered_def nth_append less_Suc_eq)
qed

lemma registered_start_streams:
  assumes "tasks_registered s"
  shows "tasks_registered (start_streams ms s)"
proof -
  have "tasks_registered (fold start_market ms s')" if "tasks_registered s'" for s'
    using that by (induction ms arbitrary: s') (simp_all add: registered_start_market)
  moreover from assms have "tasks_registered (s\<lparr>running := True\<rparr>)"
    by (simp add: tasks_registered_def)
  ultimately show ?thesis
    by (simp add: start_streams_def)
qed

lemma registered_same_tasks:
  assumes "tasks_registered s" and "connection_tasks s' = connection_tasks s"
    and "map is_done (tasks s') = map is_done (tasks s)"
    and "map listens_to (tasks s') = map listens_to (tasks s)"
  shows "tasks_registered s'"
proof -
  from assms(3) have len: "length (tasks s') = length (tasks s)"
    by (metis length_map)
  have "is_done (tasks s' ! i) = is_done (tasks s ! i) \<and>
        listens_to (tasks s' ! i) = listens_to (tasks s ! i)" if "i < length (tasks s)" for i
    using that assms(3,4) len by (metis nth_map)
  with assms(1,2) len show ?thesis
    by (simp add: tasks_registered_def)
qed

lemma registered_stop:
  assumes "tasks_registered s"
  shows "tasks_registered (stop_specific_streams ms s)"
proof -
  let ?s1 = "fst (stop_loop ms s)"
  let ?stopped = "snd (stop_loop ms s)"
  note same = stop_loop_tasks [of ms "(s, [])", folded stop_loop_def, simplified]
  have r1: "tasks_registered ?s1"
    using assms same by (intro registered_same_tasks [of s ?s1]) simp_all
  have len: "length (tasks ?s1) = length (tasks s)"
    using same by (metis length_map)
  let ?s2 = "gather ?stopped ?s1"
  have r2: "tasks_registered ?s2"
    using r1 by (simp add: tasks_registered_def gather_fields gather_task)
  have none: "listens_to (tasks ?s2 ! i) \<notin> upper ` set ms"
    if i: "i < length (tasks ?s2)" and live: "\<not> is_done (tasks ?s2 ! i)" for i
  proof
    assume "listens_to (tasks ?s2 ! i) \<in> upper ` set ms"
    then obtain m where m: "m \<in> set ms" "listens_to (tasks ?s2 ! i) = upper m"
      by auto
    from i have i1: "i < length (tasks ?s1)"
      by (simp add: gather_fields)
    from live i1 have nd: "\<not> is_done (tasks ?s1 ! i)" and ns: "i \<notin> set ?stopped"
      by (simp_all add: gather_task)
    from r2 i live m have "connection_tasks s (upper m) = Some i"
      using same by (auto simp: tasks_registered_def gather_fields)
    moreover from nd i1 len same have "\<not> is_done (tasks s ! i)"
      by (metis nth_map)
    ultimately have "live_task s (upper m) = Some i"
      using i1 len by (simp add: live_task_def)
    with m(1) have "i \<in> set ?stopped"
      using stop_loop_stopped [of ms "(s, [])"] by (auto simp: stop_loop_def)
    with ns show False
      by simp
  qed
  have r3: "tasks_registered (stop_finish ms ?stopped ?s2)"
    unfolding tasks_registered_def
  proof (intro allI impI)
    fix i
    assume i: "i < length (tasks (stop_finish ms ?stopped ?s2))"
      and live: "\<not> is_done (tasks (stop_finish ms ?stopped ?s2) ! i)"
    then have i2: "i < length (tasks ?s2)" and l2: "\<not> is_done (tasks ?s2 ! i)"
      by (simp_all add: stop_finish_fields)
    from none [OF i2 l2] have "listens_to (tasks ?s2 ! i) \<notin> upper ` fst ` set (zip ms ?stopped)"
      by (auto dest: set_zip_leftD)
    moreover from r2 i2 l2 have "connection_tasks ?s2 (listens_to (tasks ?s2 ! i)) = Some i"
      by (simp add: tasks_registered_def)
    ultimately show "connection_tasks (stop_finish ms ?stopped ?s2)
        (listens_to (tasks (stop_finish ms ?stopped ?s2) ! i)) = Some i"
      by (simp add: stop_finish_entry stop_finish_fields)
  qed
  show ?thesis
    using r1 r3 by (simp add: stop_specific_streams_def Let_def)
qed

lemma registered_step:
  assumes "tasks_registered s"
  shows "tasks_registered (step e s)"
proof (cases e)
  case (Start ms)
  with assms show ?thesis
    by (simp add: registered_start_streams)
next
  case (Stop ms)
  with assms show ?thesis
    by (simp add: registered_stop)
next
  case (Message mkt snap now_ms)
  with assms show ?thesis
    by (simp add: tasks_registered_def handle_message_fields)
next
  case (Exit i)
  with assms show ?thesis
    by (auto simp: tasks_registered_def listener_exit_def Let_def nth_list_update)
qed

lemma registered_run: "tasks_registered s \<Longrightarrow> tasks_registered (run evs s)"
  unfolding run_def
  by (induction evs arbitrary: s) (simp_all add: registered_step)

lemma registered_one_listener:
  assumes "tasks_registered s"
  shows "length (live_listeners s mkt) \<le> 1"
proof -
  have d: "distinct (live_listeners s mkt)"
    by (simp add: live_listeners_def)
  have "i = j" if "i \<in> set (live_listeners s mkt)" "j \<in> set (live_listeners s mkt)" for i j
  proof -
    from that assms have "connection_tasks s mkt = Some i" "connection_tasks s mkt = Some j"
      by (auto simp: live_listeners_def tasks_registered_def)
    then show ?thesis
      by simp
  qed
  then have "card (set (live_listeners s mkt)) \<le> 1"
    by (metis card_le_Suc0_iff_eq List.finite_set One_nat_def)
  with d show ?thesis
    by (simp add: distinct_card)
qed

text \<open>
  C9. Starting a market whose registered task is alive sets its flag and creates no task:
  the provider is otherwise as before. A task is created exactly when the market has no
  registered task or that task is done, and it becomes the registered one. Starting the
  same markets again changes nothing. And from the initial provider, whatever starts,
  stops (each run to its end), messages and task exits happen, at most one task that is
  not done listens to any market.
\<close>

theorem C9_start_streams_idempotent:
  "(live_task s (upper m) = Some i \<longrightarrow>
      start_streams [m] s =
        s\<lparr>running := True,
          active_market_listeners := (active_market_listeners s)(upper m \<mapsto> True)\<rparr>) \<and>
   (live_task s (upper m) = None \<longrightarrow>
      tasks (start_streams [m] s) =
        tasks s @ [\<lparr>listens_to = upper m, cancel_requested = False, is_done = False\<rparr>] \<and>
      connection_tasks (start_streams [m] s) (upper m) = Some (length (tasks s)) \<and>
      active_market_listeners (start_streams [m] s) (upper m) = Some True) \<and>
   start_streams markets (start_streams markets s) = start_streams markets s \<and>
   length (live_listeners (run evs init_provider) mkt) \<le> 1"
proof (intro conjI impI)
  assume "live_task s (upper m) = Some i"
  then have "live_task (s\<lparr>running := True\<rparr>) (upper m) = Some i"
    by simp
  from start_market_live [OF this]
  show "start_streams [m] s =
        s\<lparr>running := True,
          active_market_listeners := (active_market_listeners s)(upper m \<mapsto> True)\<rparr>"
    by (simp add: start_streams_def)
next
  assume "live_task s (upper m) = None"
  then have "live_task (s\<lparr>running := True\<rparr>) (upper m) = None"
    by simp
  from start_market_spawn [OF this]
  show "tasks (start_streams [m] s) =
        tasks s @ [\<lparr>listens_to = upper m, cancel_requested = False, is_done = False\<rparr>]"
    and "connection_tasks (start_streams [m] s) (upper m) = Some (length (tasks s))"
    and "active_market_listeners (start_streams [m] s) (upper m) = Some True"
    by (simp_all add: start_streams_def)
next
  show "start_streams markets (start_streams markets s) = start_streams markets s"
    by (rule start_streams_twice)
next
  show "length (live_listeners (run evs init_provider) mkt) \<le> 1"
    by (intro registered_one_listener registered_run registered_init)
qed

theorem C9_start_streams_idempotent_witness:
  "live_task streaming_provider (upper ''btc-usd'') = Some 0 \<and>
   start_streams [''btc-usd''] streaming_provider = streaming_provider \<and>
   live_task init_provider (upper ''btc-usd'') = None \<and>
   tasks (start_streams [''btc-usd''] init_provider) =
     [\<lparr>listens_to = ''BTC-USD'', cancel_requested = False, is_done = False\<rparr>] \<and>
   tasks (start_streams [''BTC-USD''] (start_streams [''btc-usd''] init_provider)) =
     [\<lparr>listens_to = ''BTC-USD'', cancel_requested = False, is_done = False\<rparr>]"
proof -
  have l: "live_task streaming_provider (upper ''btc-usd'') = Some 0"
    by (simp add: live_task_def streaming_provider_def upper_btc_usd)
  have n: "live_task init_provider (upper ''btc-usd'') = None"
    by (simp add: live_task_def init_provider_def)
  note a = C9_start_streams_idempotent [where s = streaming_provider and m = "''btc-usd''"
      and i = 0, THEN conjunct1, rule_format, OF l]
  note b = C9_start_streams_idempotent [where s = init_provider and m = "''btc-usd''",
      THEN conjunct2, THEN conjunct1, rule_format, OF n]
  have a': "start_streams [''btc-usd''] streaming_provider = streaming_provider"
    unfolding a by (simp add: streaming_provider_def upper_btc_usd)
  from b have b': "tasks (start_streams [''btc-usd''] init_provider) =
     [\<lparr>listens_to = ''BTC-USD'', cancel_requested = False, is_done = False\<rparr>]"
    by (simp add: init_provider_def upper_btc_usd)
  from b have l2: "live_task (start_streams [''btc-usd''] init_provider) (upper ''BTC-USD'') = Some 0"
    by (simp add: live_task_def init_provider_def upper_btc_usd upper_BTC_USD)
  note c = C9_start_streams_idempotent [where s = "start_streams [''btc-usd''] init_provider"
      and m = "''BTC-USD''" and i = 0, THEN conjunct1, rule_format, OF l2]
  have c': "tasks (start_streams [''BTC-USD''] (start_streams [''btc-usd''] init_provider)) =
     [\<lparr>listens_to = ''BTC-USD'', cancel_requested = False, is_done = False\<rparr>]"
    unfolding c using b' by simp
  show ?thesis
    using l n a' b' c' by simp
qed

subsection \<open>The casing of market names\<close>

lemma start_market_upper: "start_market (upper m) = start_market m"
  by (simp add: start_market_def fun_eq_iff upper_idem)

lemma stop_market_upper: "stop_market (upper m) = stop_market m"
  by (simp add: stop_market_def fun_eq_iff upper_idem)

lemma start_streams_upper: "start_streams (map upper ms) s = start_streams ms s"
  by (simp add: start_streams_def fold_map comp_def start_market_upper)

lemma stop_loop_upper: "stop_loop (map upper ms) s = stop_loop ms s"
  by (simp add: stop_loop_def fold_map comp_def stop_market_upper)

lemma stop_finish_upper: "stop_finish (map upper ms) stopped s = stop_finish ms stopped s"
  by (simp add: stop_finish_def zip_map1 fold_map comp_def case_prod_beta upper_idem)

lemma stop_specific_streams_upper:
  "stop_specific_streams (map upper ms) s = stop_specific_streams ms s"
  by (simp add: stop_specific_streams_def Let_def stop_loop_upper stop_finish_upper)

lemma start_streams_flags:
  "active_market_listeners (start_streams [m] s) = (active_market_listeners s)(upper m \<mapsto> True)"
  by (simp add: start_streams_def start_market_flags)

lemma stop_specific_streams_flags:
  "active_market_listeners (stop_specific_streams [m] s) =
     (active_market_listeners s)(upper m \<mapsto> False)"
  by (simp add: stop_specific_streams_def stop_loop_def Let_def stop_finish_fields gather_fields
      stop_market_fields)

lemma lower_case_lookups:
  "get_best_bid_ask (provider_with q) ''btc-usd'' = Some q"
  "result (get_market_object (Some [market_with a b]) 1010 1010 (utils_with (market_with a b))
     ''btc-usd'') = None"
  "result (get_market_object (Some [market_with a b]) 1010 1010 (utils_with (market_with a b))
     ''BTC-USD'') = Some (market_with a b)"
  by (simp_all add: exec_defs example_defs upper_btc_usd fetch_and_cache_all_markets_def
      cache_market_def)

text \<open>
  C10. \<open>get_best_bid_ask\<close>, \<open>start_streams\<close> and \<open>stop_specific_streams\<close> give the same
  result for a market name and for its upper-case form, and starting or stopping a market
  touches the flag of the upper-case name only. The metadata lookup takes the name as it
  is: with the quote and the metadata of \<open>BTC-USD\<close> present (and listed by the venue),
  \<open>btc-usd\<close> finds the quote and misses the metadata, so that \<open>execute\<close> on \<open>btc-usd\<close>
  fails with \<open>ConfigurationUnavailable\<close> where \<open>execute\<close> on \<open>BTC-USD\<close> places an order.
\<close>

theorem C10_market_name_casing:
  "get_best_bid_ask s m = get_best_bid_ask s (upper m) \<and>
   start_streams ms s = start_streams (map upper ms) s \<and>
   stop_specific_streams ms s = stop_specific_streams (map upper ms) s \<and>
   active_market_listeners (start_streams [m] s) =
     (active_market_listeners s)(upper m \<mapsto> True) \<and>
   active_market_listeners (stop_specific_streams [m] s) =
     (active_market_listeners s)(upper m \<mapsto> False) \<and>
   get_best_bid_ask (provider_with (quote_of ''100'' ''101'')) ''btc-usd''
     = Some (quote_of ''100'' ''101'') \<and>
   result (get_market_object
       (Some [market_with (Finite False 1 0) (Finite False 1 (- 2))]) 1010 1010
       (utils_with (market_with (Finite False 1 0) (Finite False 1 (- 2)))) ''btc-usd'') = None \<and>
   execute (Some [market_with (Finite False 1 0) (Finite False 1 (- 2))]) 1010 1010
       (utils_with (market_with (Finite False 1 0) (Finite False 1 (- 2))))
       (provider_with (quote_of ''100'' ''101'')) accepting_client ''btc-usd'' ''buy''
       (Finite False 10000 (- 1))
     = \<lparr>returned = None, logged = [ConfigurationUnavailable], placed = []\<rparr> \<and>
   returned (execute (Some [market_with (Finite False 1 0) (Finite False 1 (- 2))]) 1010 1010
       (utils_with (market_with (Finite False 1 0) (Finite False 1 (- 2))))
       (provider_with (quote_of ''100'' ''101'')) accepting_client ''BTC-USD'' ''buy''
       (Finite False 10000 (- 1)))
     = Some ''order-1''"
proof -
  have e1: "execute (Some [market_with (Finite False 1 0) (Finite False 1 (- 2))]) 1010 1010
       (utils_with (market_with (Finite False 1 0) (Finite False 1 (- 2))))
       (provider_with (quote_of ''100'' ''101'')) accepting_client ''btc-usd'' ''buy''
       (Finite False 10000 (- 1))
     = \<lparr>returned = None, logged = [ConfigurationUnavailable], placed = []\<rparr>"
    unfolding execute_def lower_case_lookups by (simp add: execute_on_def failed_def)
  have e2: "returned (execute (Some [market_with (Finite False 1 0) (Finite False 1 (- 2))]) 1010 1010
       (utils_with (market_with (Finite False 1 0) (Finite False 1 (- 2))))
       (provider_with (quote_of ''100'' ''101'')) accepting_client ''BTC-USD'' ''buy''
       (Finite False 10000 (- 1)))
     = Some ''order-1''"
    by (simp add: exec_defs example_defs dec_defs str_defs upper_BTC_USD)
  show ?thesis
    using e1 e2 lower_case_lookups(1,2)
    by (simp add: get_best_bid_ask_def upper_idem start_streams_upper stop_specific_streams_upper
        start_streams_flags stop_specific_streams_flags del: One_nat_def)
qed

subsection \<open>Which task entries a stop deletes\<close>

text \<open>
  The loop after the \<open>gather\<close> pairs the markets to stop with the results of the
  cancelled tasks by position. When an earlier market of the list had no task to cancel,
  the entry of a later one stays: here \<open>AAA-USD\<close> has no task, the task of \<open>BTC-USD\<close>
  is cancelled, and the entry of \<open>BTC-USD\<close> is still there after the stop (its task is
  done, so a later start replaces it).
\<close>

lemma stop_pairs_by_position:
  "connection_tasks (stop_specific_streams [''AAA-USD'', ''BTC-USD''] streaming_provider)
     ''BTC-USD'' = Some 0 \<and>
   connection_tasks (stop_specific_streams [''BTC-USD''] streaming_provider) ''BTC-USD'' = None"
proof -
  have u: "upper ''AAA-USD'' = ''AAA-USD''"
    by code_simp
  show ?thesis
    by (simp add: stop_specific_streams_def stop_loop_def stop_market_def stop_clear_def
        stop_close_def stop_mark_def live_task_def streaming_provider_def upper_BTC_USD u
        Let_def stop_finish_def gather_def)
qed

end
